theory Spec2Isabelle
  imports Complex_Main
begin

section \<open>Python values shared by imu.py and kos.py\<close>

text \<open>
  Instances of Python's \<open>Exception\<close> class, by the built-in classes that the two
  modules raise or catch by name; \<open>OtherException\<close> is an instance of another built-in
  class, and \<open>UserDefined cls\<close> one of a class named \<open>cls\<close> that a module defines by
  deriving it from \<open>Exception\<close>. Each carries the text that \<open>str(e)\<close> returns.
\<close>

datatype py_exn =
    RuntimeError string
  | AttributeError string
  | ZeroDivisionError string
  | OtherException string
  | UserDefined string string

fun str_exn :: "py_exn \<Rightarrow> string" where
  "str_exn (RuntimeError m) = m"
| "str_exn (AttributeError m) = m"
| "str_exn (ZeroDivisionError m) = m"
| "str_exn (OtherException m) = m"
| "str_exn (UserDefined cls m) = m"

text \<open>
  The text of the \<open>AttributeError\<close> that Python raises for \<open>obj.name\<close> when an object
  of class \<open>cls\<close> has no attribute \<open>name\<close>:
  \<open>'cls' object has no attribute 'name'\<close>.
\<close>

definition quoted :: "string \<Rightarrow> string" where
  "quoted s = [CHR 0x27] @ s @ [CHR 0x27]"

definition no_attribute :: "string \<Rightarrow> string \<Rightarrow> string" where
  "no_attribute cls name = quoted cls @ '' object has no attribute '' @ quoted name"

section \<open>imu.py: the State Buffer and the reader loop\<close>

text \<open>
  A field of a sample is \<open>None\<close> or a tuple whose elements may be \<open>None\<close>; the buffer
  stores the tuple as it came.
\<close>

type_synonym 'a tuple = "'a option list"

record sample =
  s_accel :: "real tuple option"
  s_gyro :: "real tuple option"
  s_mag :: "real tuple option"
  s_quat :: "real tuple option"
  s_calib :: "int tuple option"

record buffer =
  accel :: "real tuple"
  gyro :: "real tuple"
  mag :: "real tuple"
  quat :: "real tuple"
  calib :: "int tuple"

text \<open>\<open>BNO055Manager.__init__\<close>, lines 82-88.\<close>

definition init_buffer :: buffer where
  "init_buffer = \<lparr>accel = [Some 0, Some 0, Some 0],
                  gyro = [Some 0, Some 0, Some 0],
                  mag = [Some 0, Some 0, Some 0],
                  quat = [Some 0, Some 0, Some 0, Some 0],
                  calib = [Some 0, Some 0, Some 0, Some 0]\<rparr>"

text \<open>\<open>all(v is not None for v in t)\<close>\<close>

definition all_not_None :: "'a tuple \<Rightarrow> bool" where
  "all_not_None t = list_all (\<lambda>v. v \<noteq> None) t"

text \<open>\<open>f is not None and all(v is not None for v in f)\<close>\<close>

definition fully_valid :: "'a tuple option \<Rightarrow> bool" where
  "fully_valid f = (case f of None \<Rightarrow> False | Some t \<Rightarrow> all_not_None t)"

text \<open>The body of the \<open>with self._lock\<close> block of \<open>_reader_loop\<close>, lines 135-144.\<close>

definition merge_sample :: "buffer \<Rightarrow> sample \<Rightarrow> buffer" where
  "merge_sample b s =
    (let b1 = (if fully_valid (s_accel s) then b\<lparr>accel := the (s_accel s)\<rparr> else b);
         b2 = (if fully_valid (s_gyro s) then b1\<lparr>gyro := the (s_gyro s)\<rparr> else b1);
         b3 = (if fully_valid (s_mag s) then b2\<lparr>mag := the (s_mag s)\<rparr> else b2);
         b4 = (if fully_valid (s_quat s) then b3\<lparr>quat := the (s_quat s)\<rparr> else b3);
         b5 = (if fully_valid (s_calib s) then b4\<lparr>calib := the (s_calib s)\<rparr> else b4)
     in b5)"

text \<open>
  \<open>_reader_loop\<close>: one list element per iteration, the outcome of
  \<open>self._queue.get(timeout=0.1)\<close>; \<open>None\<close> is \<open>queue.Empty\<close>, on which the loop
  continues with the buffer untouched. The loop leaves when the stop event is set, so
  the buffer a reader sees is the one after some finite list of outcomes.
\<close>

fun reader_loop :: "sample option list \<Rightarrow> buffer \<Rightarrow> buffer" where
  "reader_loop [] b = b"
| "reader_loop (None # gs) b = reader_loop gs b"
| "reader_loop (Some s # gs) b = reader_loop gs (merge_sample b s)"

text \<open>No slot of the buffer holds a tuple with a \<open>None\<close> in it.\<close>

definition no_null :: "buffer \<Rightarrow> bool" where
  "no_null b = (all_not_None (accel b) \<and> all_not_None (gyro b) \<and> all_not_None (mag b)
                \<and> all_not_None (quat b) \<and> all_not_None (calib b))"

section \<open>imu.py: the Handoff Channel\<close>

text \<open>
  \<open>self._queue = Queue(maxsize=1)\<close>, line 76, a \<open>multiprocessing.Queue\<close>. A sample
  that was put waits in the queue's \<open>pending\<close> buffer until the queue's feeder thread
  moves it into the \<open>pipe\<close>, where the consumer's \<open>get\<close> finds it; the queue counts
  both against \<open>maxsize\<close>. \<open>ppc\<close> is the producer's position inside lines 52-62, and
  \<open>last_put\<close> records the last sample whose \<open>put_nowait\<close> succeeded.
\<close>

datatype queue_exn = Empty | Full

datatype 'a pc = Idle | AtGet 'a | AtPut 'a

record 'a channel =
  pending :: "'a list"
  pipe :: "'a list"
  ppc :: "'a pc"
  last_put :: "'a option"

definition maxsize :: nat where
  "maxsize = 1"

definition init_channel :: "'a channel" where
  "init_channel = \<lparr>pending = [], pipe = [], ppc = Idle, last_put = None\<rparr>"

text \<open>The number of samples the channel holds.\<close>

definition held :: "'a channel \<Rightarrow> nat" where
  "held c = length (pending c) + length (pipe c)"

definition q_full :: "'a channel \<Rightarrow> bool" where
  "q_full c = (maxsize \<le> held c)"

definition get_nowait :: "'a channel \<Rightarrow> queue_exn + ('a \<times> 'a channel)" where
  "get_nowait c = (case pipe c of [] \<Rightarrow> Inl Empty | x # xs \<Rightarrow> Inr (x, c\<lparr>pipe := xs\<rparr>))"

definition put_nowait :: "'a \<Rightarrow> 'a channel \<Rightarrow> queue_exn + 'a channel" where
  "put_nowait x c =
    (if q_full c then Inl Full else Inr (c\<lparr>pending := pending c @ [x], last_put := Some x\<rparr>))"

text \<open>The feeder thread of the queue moves the oldest pending sample into the pipe.\<close>

definition feed :: "'a channel \<Rightarrow> 'a channel" where
  "feed c = (case pending c of [] \<Rightarrow> c | x # xs \<Rightarrow> c\<lparr>pending := xs, pipe := pipe c @ [x]\<rparr>)"

text \<open>Line 53: \<open>if q.full()\<close>.\<close>

definition step_full :: "'a \<Rightarrow> 'a channel \<Rightarrow> 'a channel" where
  "step_full d c = c\<lparr>ppc := (if q_full c then AtGet d else AtPut d)\<rparr>"

text \<open>Lines 55-58: \<open>q.get_nowait()\<close>, with \<open>queue.Empty\<close> passed over.\<close>

definition step_get :: "'a \<Rightarrow> 'a channel \<Rightarrow> 'a channel" where
  "step_get d c =
    (case get_nowait c of Inl e \<Rightarrow> c\<lparr>ppc := AtPut d\<rparr> | Inr (x, c') \<Rightarrow> c'\<lparr>ppc := AtPut d\<rparr>)"

text \<open>Lines 59-62: \<open>q.put_nowait(data)\<close>, with \<open>queue.Full\<close> passed over.\<close>

definition step_put :: "'a \<Rightarrow> 'a channel \<Rightarrow> 'a channel" where
  "step_put d c =
    (case put_nowait d c of Inl e \<Rightarrow> c\<lparr>ppc := Idle\<rparr> | Inr c' \<Rightarrow> c'\<lparr>ppc := Idle\<rparr>)"

text \<open>
  One queue operation of the producer. The sample \<open>d\<close> is the one read in this tick; it
  is taken up when a push begins, and a push in progress goes on with its own sample.
\<close>

definition producer_step :: "'a \<Rightarrow> 'a channel \<Rightarrow> 'a channel" where
  "producer_step d c =
    (case ppc c of Idle \<Rightarrow> step_full d c | AtGet d' \<Rightarrow> step_get d' c | AtPut d' \<Rightarrow> step_put d' c)"

text \<open>
  Line 133: \<open>self._queue.get(timeout=0.1)\<close> of the reader thread; \<open>None\<close> is the
  timeout (\<open>queue.Empty\<close>).
\<close>

definition pop :: "'a channel \<Rightarrow> 'a option \<times> 'a channel" where
  "pop c = (case pipe c of [] \<Rightarrow> (None, c) | x # xs \<Rightarrow> (Some x, c\<lparr>pipe := xs\<rparr>))"

text \<open>
  An interleaving of the sampler process, the reader thread and the queue's feeder
  thread, one queue operation at a time.
\<close>

datatype 'a actor = Producer 'a | Consumer | Feeder

fun run :: "'a actor list \<Rightarrow> 'a channel \<Rightarrow> 'a channel" where
  "run [] c = c"
| "run (Producer d # es) c = run es (producer_step d c)"
| "run (Consumer # es) c = run es (snd (pop c))"
| "run (Feeder # es) c = run es (feed c)"

text \<open>Operations of the reader thread and of the feeder thread only.\<close>

fun is_Producer :: "'a actor \<Rightarrow> bool" where
  "is_Producer (Producer d) = True"
| "is_Producer Consumer = False"
| "is_Producer Feeder = False"

definition others :: "'a actor list \<Rightarrow> bool" where
  "others es = list_all (\<lambda>e. \<not> is_Producer e) es"

text \<open>Lines 52-62 as the sampler runs them when nothing else touches the queue meanwhile.\<close>

definition push :: "'a \<Rightarrow> 'a channel \<Rightarrow> 'a channel" where
  "push d c =
    (let c1 = step_full d c;
         c2 = (case ppc c1 of AtGet d' \<Rightarrow> step_get d' c1 | _ \<Rightarrow> c1)
     in step_put d c2)"

section \<open>imu.py: the Sampler\<close>

record sampler =
  next_deadline :: real
  chan :: "sample channel"
  slog :: "string list"

text \<open>
  What one iteration of the loop observes: \<open>time.monotonic()\<close> at line 27, the outcome of
  reading the five sensor properties (lines 38-49), and \<open>time.monotonic()\<close> at line 66.
\<close>

record tick_obs =
  now :: real
  reading :: "py_exn + sample"
  now_after :: real

text \<open>Line 19: \<open>period = 1.0 / rate_hz\<close>.\<close>

definition period_of :: "int \<Rightarrow> py_exn + real" where
  "period_of rate_hz =
    (if rate_hz = 0 then Inl (ZeroDivisionError ''float division by zero'')
     else Inr (1 / real_of_int rate_hz))"

text \<open>
  The body of \<open>while True\<close>, lines 27-68. The second component is the argument of
  \<open>time.sleep\<close>, or \<open>None\<close> when the loop does not sleep. Every exception of the body
  is caught inside it (lines 46, 60, 63), so the body has no raising outcome.
\<close>

definition tick :: "real \<Rightarrow> tick_obs \<Rightarrow> sampler \<Rightarrow> sampler \<times> real option" where
  "tick period ob s =
    (let nd0 = (if now ob > next_deadline s then now ob else next_deadline s);
         nd = nd0 + period;
         data = (case reading ob of Inl e \<Rightarrow> None | Inr d \<Rightarrow> Some d);
         lg = (case reading ob of Inl e \<Rightarrow> slog s @ [''Failed to read sensor values'']
               | Inr d \<Rightarrow> slog s);
         ch = (case data of None \<Rightarrow> chan s | Some d \<Rightarrow> push d (chan s));
         sleep_time = nd - now_after ob
     in (\<lparr>next_deadline = nd, chan = ch, slog = lg\<rparr>,
         if sleep_time > 0 then Some sleep_time else None))"

fun sensor_loop :: "real \<Rightarrow> tick_obs list \<Rightarrow> sampler \<Rightarrow> sampler" where
  "sensor_loop period [] s = s"
| "sensor_loop period (ob # obs) s = sensor_loop period obs (fst (tick period ob s))"

text \<open>
  \<open>_sensor_proc(q, rate_hz)\<close>; \<open>t0\<close> is \<open>time.monotonic()\<close> at line 20. The loop never
  returns, so the result is the state after the iterations observed so far.
\<close>

definition sensor_proc :: "sample channel \<Rightarrow> int \<Rightarrow> real \<Rightarrow> tick_obs list \<Rightarrow> py_exn + sampler" where
  "sensor_proc q rate_hz t0 obs =
    (case period_of rate_hz of
       Inl e \<Rightarrow> Inl e
     | Inr period \<Rightarrow> Inr (sensor_loop period obs \<lparr>next_deadline = t0, chan = q, slog = []\<rparr>))"

text \<open>
  What holds of the channel whoever moves next: it holds at most one sample, and each
  sample it holds is the one put last.
\<close>

definition chan_inv :: "'a channel \<Rightarrow> bool" where
  "chan_inv c = (held c \<le> 1 \<and> list_all (\<lambda>x. last_put c = Some x) (pending c @ pipe c))"

section \<open>imu.py: starting and stopping the manager\<close>

text \<open>
  A \<open>multiprocessing.Process\<close> or \<open>threading.Thread\<close> object as far as \<open>start\<close> and
  \<open>stop\<close> look at it: \<open>started\<close> says that its \<open>start\<close> method has returned. \<open>ops\<close>
  records the calls on the two objects and on the stop event that returned, in order.
\<close>

record handle =
  started :: bool
  alive :: bool

datatype os_op =
    ProcessStart | ProcessTerminate | ProcessJoin
  | StopClear | StopSet | ThreadStart | ThreadJoin

record manager =
  update_rate :: int
  process :: "handle option"
  reader_thread :: "handle option"
  stop_reader :: bool
  ops :: "os_op list"
  mlog :: "string list"

text \<open>\<open>BNO055Manager.__init__\<close>, lines 72-89.\<close>

definition init_manager :: "int \<Rightarrow> manager" where
  "init_manager rate =
    \<lparr>update_rate = rate, process = None, reader_thread = None, stop_reader = False,
     ops = [], mlog = []\<rparr>"

text \<open>\<open>h and h.is_alive()\<close>\<close>

definition running :: "handle option \<Rightarrow> bool" where
  "running h = (case h of None \<Rightarrow> False | Some p \<Rightarrow> alive p)"

text \<open>
  What \<open>Process.start\<close> and \<open>Thread.start\<close> do when \<open>start\<close> calls them: they return
  (\<open>None\<close>) or raise, as when the operating system does not give a new process or
  thread, or when \<open>Process.start\<close> is called inside a daemonic process.
\<close>

record start_env =
  process_start :: "py_exn option"
  thread_start :: "py_exn option"

text \<open>
  Lines 103-113. The stop event is cleared and the new thread object is assigned to
  \<open>self._reader_thread\<close> before \<open>Thread.start\<close> is called on it. When that call raises,
  the exception leaves \<open>start\<close>, and the object stays where it is, never started. The
  result is the exception that left \<open>start\<close>, if any, and the manager as it is then.
\<close>

definition start_reader :: "start_env \<Rightarrow> manager \<Rightarrow> py_exn option \<times> manager" where
  "start_reader env m =
    (if \<not> running (reader_thread m)
     then (case thread_start env of
             Some e \<Rightarrow>
               (Some e, m\<lparr>stop_reader := False,
                          reader_thread := Some \<lparr>started = False, alive = False\<rparr>,
                          ops := ops m @ [StopClear]\<rparr>)
           | None \<Rightarrow>
               (None, m\<lparr>stop_reader := False,
                        reader_thread := Some \<lparr>started = True, alive = True\<rparr>,
                        ops := ops m @ [StopClear, ThreadStart],
                        mlog := mlog m @ [''Reader thread started'']\<rparr>))
     else (None, m\<lparr>mlog := mlog m @ [''Reader thread already running'']\<rparr>))"

text \<open>
  \<open>start\<close>, lines 91-113. The new process object is assigned to \<open>self._process\<close> (line
  94) before \<open>Process.start\<close> is called on it (line 99); when that call raises, nothing
  after it runs.
\<close>

definition start :: "start_env \<Rightarrow> manager \<Rightarrow> py_exn option \<times> manager" where
  "start env m =
    (if \<not> running (process m)
     then (case process_start env of
             Some e \<Rightarrow> (Some e, m\<lparr>process := Some \<lparr>started = False, alive = False\<rparr>\<rparr>)
           | None \<Rightarrow>
               start_reader env
                 (m\<lparr>process := Some \<lparr>started = True, alive = True\<rparr>,
                    ops := ops m @ [ProcessStart],
                    mlog := mlog m @ [''Sensor process started'']\<rparr>))
     else start_reader env (m\<lparr>mlog := mlog m @ [''Sensor process already running'']\<rparr>))"

text \<open>
  How a call of \<open>stop\<close> can fail to return: by raising, or by waiting for ever in a
  \<open>join\<close>.
\<close>

datatype stop_fault = Raised py_exn | Blocked

text \<open>
  \<open>Process.terminate\<close> sends SIGTERM, which the sampler does not handle; on a process
  object that was never started it is \<open>self._popen.terminate()\<close> with \<open>_popen\<close> still
  \<open>None\<close>, which raises. \<open>Process.join\<close> waits for the exit.
\<close>

definition process_terminate :: "handle \<Rightarrow> stop_fault + handle" where
  "process_terminate p =
    (if started p then Inr (p\<lparr>alive := False\<rparr>)
     else Inl (Raised (AttributeError (no_attribute ''NoneType'' ''terminate''))))"

definition process_join :: "handle \<Rightarrow> stop_fault + handle" where
  "process_join p =
    (if \<not> started p then Inl (Raised (OtherException ''can only join a started process''))
     else if alive p then Inl Blocked
     else Inr p)"

text \<open>
  \<open>Thread.join\<close> on the reader thread: \<open>_reader_loop\<close> leaves its loop once the stop
  event is set (its \<open>get\<close> waits at most 0.1 s), and not before.
\<close>

definition thread_join :: "bool \<Rightarrow> handle \<Rightarrow> stop_fault + handle" where
  "thread_join stop_set t =
    (if \<not> started t
     then Inl (Raised (RuntimeError ''cannot join thread before it is started''))
     else if alive t \<and> \<not> stop_set then Inl Blocked
     else Inr (t\<lparr>alive := False\<rparr>))"

text \<open>Lines 117-121.\<close>

definition stop_process :: "manager \<Rightarrow> stop_fault + manager" where
  "stop_process m =
    (case process m of
       None \<Rightarrow> Inr m
     | Some p \<Rightarrow>
        (case process_terminate p of
           Inl f \<Rightarrow> Inl f
         | Inr p1 \<Rightarrow>
            (case process_join p1 of
               Inl f \<Rightarrow> Inl f
             | Inr p2 \<Rightarrow>
                Inr (m\<lparr>process := None,
                       ops := ops m @ [ProcessTerminate, ProcessJoin],
                       mlog := mlog m @ [''Sensor process stopped'']\<rparr>))))"

text \<open>Lines 123-127.\<close>

definition stop_thread :: "manager \<Rightarrow> stop_fault + manager" where
  "stop_thread m =
    (case reader_thread m of
       None \<Rightarrow> Inr m
     | Some t \<Rightarrow>
        (case thread_join True t of
           Inl f \<Rightarrow> Inl f
         | Inr t' \<Rightarrow>
            Inr (m\<lparr>stop_reader := True,
                   reader_thread := None,
                   ops := ops m @ [StopSet, ThreadJoin],
                   mlog := mlog m @ [''Reader thread stopped'']\<rparr>)))"

text \<open>\<open>stop\<close>, lines 115-127.\<close>

definition stop :: "manager \<Rightarrow> stop_fault + manager" where
  "stop m = (case stop_process m of Inl f \<Rightarrow> Inl f | Inr m1 \<Rightarrow> stop_thread m1)"

text \<open>
  What happens to a manager between its construction and a call of \<open>stop\<close>: calls of
  \<open>start\<close> and \<open>stop\<close>, and the sampler process ending on its own. A caller that
  catches the exception of a \<open>start\<close> goes on with the manager as \<open>start\<close> left it.
\<close>

datatype call = Start start_env | Stop | SamplerExits

fun calls :: "call list \<Rightarrow> manager \<Rightarrow> stop_fault + manager" where
  "calls [] m = Inr m"
| "calls (Start env # cs) m = calls cs (snd (start env m))"
| "calls (Stop # cs) m = (case stop m of Inl f \<Rightarrow> Inl f | Inr m' \<Rightarrow> calls cs m')"
| "calls (SamplerExits # cs) m =
     calls cs (m\<lparr>process := map_option (\<lambda>p. p\<lparr>alive := False\<rparr>) (process m)\<rparr>)"

text \<open>A call of \<open>start\<close> in which neither \<open>Process.start\<close> nor \<open>Thread.start\<close> raises.\<close>

definition returning :: start_env where
  "returning = \<lparr>process_start = None, thread_start = None\<rparr>"

fun start_returns :: "call \<Rightarrow> bool" where
  "start_returns (Start env) = (env = returning)"
| "start_returns Stop = True"
| "start_returns SamplerExits = True"

text \<open>Every process or thread object the manager holds has been started.\<close>

definition handles_started :: "manager \<Rightarrow> bool" where
  "handles_started m =
    ((case process m of None \<Rightarrow> True | Some p \<Rightarrow> started p)
     \<and> (case reader_thread m of None \<Rightarrow> True | Some t \<Rightarrow> started t))"

section \<open>Python's \<open>str\<close> of an integer\<close>

definition digit_char :: "nat \<Rightarrow> char" where
  "digit_char n = ''0123456789'' ! n"

fun digits :: "nat \<Rightarrow> string" where
  "digits n = (if n < 10 then [digit_char n] else digits (n div 10) @ [digit_char (n mod 10)])"

definition str_int :: "int \<Rightarrow> string" where
  "str_int i = (if i < 0 then CHR ''-'' # digits (nat (- i)) else digits (nat i))"

text \<open>\<open>int(x)\<close> of a float: truncation towards zero.\<close>

definition py_int :: "real \<Rightarrow> int" where
  "py_int x = (if x \<ge> 0 then \<lfloor>x\<rfloor> else \<lceil>x\<rceil>)"

text \<open>The text of a list of integers in an f-string: \<open>[1, 99]\<close>.\<close>

fun join_ints :: "int list \<Rightarrow> string" where
  "join_ints [] = []"
| "join_ints [i] = str_int i"
| "join_ints (i # j # js) = str_int i @ '', '' @ join_ints (j # js)"

definition repr_ints :: "int list \<Rightarrow> string" where
  "repr_ints xs = ''['' @ join_ints xs @ '']''"

section \<open>kos.py: requests, responses and the actuator controller\<close>

datatype status_code = OK | UNAVAILABLE | RESOURCE_EXHAUSTED | INTERNAL

text \<open>The gRPC context, as far as \<open>set_code\<close> and \<open>set_details\<close> write it.\<close>

record grpc_context =
  code :: status_code
  details :: string

datatype cfg_value = BoolVal bool | FloatVal real | IntVal int

type_synonym config = "(string \<times> cfg_value) list"

text \<open>\<open>ConfigureActuatorRequest\<close>: an optional field is \<open>None\<close> when \<open>HasField\<close> is false.\<close>

record configure_request =
  req_actuator_id :: int
  torque_enabled :: "bool option"
  zero_position :: "bool option"
  kp :: "real option"
  kd :: "real option"
  ki :: "real option"
  max_torque :: "real option"
  acceleration :: "real option"
  new_actuator_id :: "int option"

record actuator_command =
  cmd_actuator_id :: int
  cmd_position :: real

type_synonym params = "(string \<times> int) list"

record fault_info =
  last_fault_message :: string
  total_faults :: int
  last_fault_time :: real

text \<open>\<open>ActuatorStateResponse\<close>\<close>

record actuator_state =
  st_actuator_id :: int
  position :: real
  velocity :: real
  online :: bool
  faults :: "string list"

text \<open>
  The response messages that the handlers of \<open>ActuatorService\<close> construct:
  \<open>common_pb2.ActionResponse\<close> and three messages of \<open>actuator_pb2\<close>.
\<close>

datatype response =
    ActionResponse bool
  | CommandActuatorsResponse
  | ParameterDumpResponse "(int \<times> params) list"
  | GetActuatorsStateResponse "actuator_state list"

text \<open>
  The actuator controller, an object of another module: its set of known IDs, and what
  each of its methods returns or raises when called.
\<close>

record controller =
  actuator_ids :: "int list"
  configure_actuator :: "int \<Rightarrow> config \<Rightarrow> py_exn + bool"
  set_positions :: "(int \<times> real) list \<Rightarrow> py_exn + unit"
  read_all_servo_params :: "int \<Rightarrow> py_exn + params"
  get_torque_enabled :: "int \<Rightarrow> py_exn + bool"
  get_state :: "int \<Rightarrow> py_exn + (string \<times> real) list option"
  get_faults :: "int \<Rightarrow> py_exn + fault_info option"

text \<open>
  What a handler does to the objects around it, in order: the lock, the request that it
  decodes, the controller that it changes or reads, and the log.
\<close>

datatype applied = Configure int config | SetPositions "(int \<times> real) list"

datatype event =
    Acquire | Release
  | Decode
  | Apply applied
  | Query string int
  | LogMsg string

type_synonym 'r outcome = "'r \<times> grpc_context \<times> event list"

text \<open>
  \<open>async with self.temporal_lock:\<close> around a body: the lock is acquired before the body
  and released when the body is left, by \<open>return\<close> or by an exception.
\<close>

definition with_lock :: "'a \<times> event list \<Rightarrow> 'a \<times> event list" where
  "with_lock body = (fst body, [Acquire] @ snd body @ [Release])"

fun is_RuntimeError :: "py_exn \<Rightarrow> bool" where
  "is_RuntimeError (RuntimeError m) = True"
| "is_RuntimeError e = False"

subsection \<open>ConfigureActuator\<close>

definition field :: "string \<Rightarrow> ('a \<Rightarrow> cfg_value) \<Rightarrow> 'a option \<Rightarrow> config" where
  "field name mk v = (case v of None \<Rightarrow> [] | Some x \<Rightarrow> [(name, mk x)])"

text \<open>Lines 41-57.\<close>

definition build_config :: "configure_request \<Rightarrow> config" where
  "build_config r =
     field ''torque_enabled'' BoolVal (torque_enabled r)
   @ field ''zero_position'' BoolVal (zero_position r)
   @ field ''kp'' FloatVal (kp r)
   @ field ''kd'' FloatVal (kd r)
   @ field ''ki'' FloatVal (ki r)
   @ field ''max_torque'' FloatVal (max_torque r)
   @ field ''acceleration'' FloatVal (acceleration r)
   @ field ''new_actuator_id'' IntVal (new_actuator_id r)"

text \<open>Lines 41-67, the body of the \<open>async with\<close>.\<close>

definition configure_body :: "controller \<Rightarrow> configure_request \<Rightarrow> (py_exn + response) \<times> event list" where
  "configure_body c r =
    (let config = build_config r;
         done = [Decode, Apply (Configure (req_actuator_id r) config)]
     in case configure_actuator c (req_actuator_id r) config of
          Inl e \<Rightarrow> (Inl e, done)
        | Inr success \<Rightarrow>
            (Inr (ActionResponse success),
             done @ (if \<not> success
                     then [LogMsg (''failed to configure actuator '' @ str_int (req_actuator_id r))]
                     else [])))"

text \<open>Lines 37-79.\<close>

definition ConfigureActuator :: "controller \<Rightarrow> configure_request \<Rightarrow> grpc_context \<Rightarrow> response outcome" where
  "ConfigureActuator c r ctx =
    (case with_lock (configure_body c r) of
       (Inr resp, evs) \<Rightarrow> (resp, ctx, evs)
     | (Inl e, evs) \<Rightarrow>
         if is_RuntimeError e
         then (ActionResponse False,
               ctx\<lparr>code := RESOURCE_EXHAUSTED,
                   details := ''another control operation is in progress''\<rparr>,
               evs)
         else (let error_msg = ''error configuring actuator '' @ str_int (req_actuator_id r)
                                 @ '': '' @ str_exn e
               in (ActionResponse False,
                   ctx\<lparr>code := INTERNAL, details := error_msg\<rparr>,
                   evs @ [LogMsg error_msg])))"

subsection \<open>CommandActuators\<close>

text \<open>\<open>d[k] = v\<close> on a dict, which keeps its keys in the order of their first insertion.\<close>

fun dict_set :: "'k \<Rightarrow> 'v \<Rightarrow> ('k \<times> 'v) list \<Rightarrow> ('k \<times> 'v) list" where
  "dict_set k v [] = [(k, v)]"
| "dict_set k v ((k', v') # d) = (if k = k' then (k, v) # d else (k', v') # dict_set k v d)"

text \<open>Lines 85-94: the two comprehensions.\<close>

definition servo_commands :: "controller \<Rightarrow> actuator_command list \<Rightarrow> (int \<times> real) list" where
  "servo_commands c cmds =
     foldl (\<lambda>d cmd. dict_set (cmd_actuator_id cmd) (cmd_position cmd) d) []
       (filter (\<lambda>cmd. cmd_actuator_id cmd \<in> set (actuator_ids c)) cmds)"

text \<open>Lines 85-97, the body of the \<open>async with\<close>.\<close>

definition command_body :: "controller \<Rightarrow> actuator_command list \<Rightarrow> (py_exn + response) \<times> event list" where
  "command_body c cmds =
    (let done = [Decode, Apply (SetPositions (servo_commands c cmds))]
     in case set_positions c (servo_commands c cmds) of
          Inl e \<Rightarrow> (Inl e, done)
        | Inr u \<Rightarrow> (Inr CommandActuatorsResponse, done))"

text \<open>Lines 81-107.\<close>

definition CommandActuators :: "controller \<Rightarrow> actuator_command list \<Rightarrow> grpc_context \<Rightarrow> response outcome" where
  "CommandActuators c cmds ctx =
    (case with_lock (command_body c cmds) of
       (Inr resp, evs) \<Rightarrow> (resp, ctx, evs)
     | (Inl e, evs) \<Rightarrow>
         if is_RuntimeError e
         then (ActionResponse False,
               ctx\<lparr>code := RESOURCE_EXHAUSTED,
                   details := ''Another control operation is in progress.''\<rparr>,
               evs)
         else (CommandActuatorsResponse,
               ctx\<lparr>code := INTERNAL, details := str_exn e\<rparr>,
               evs))"

subsection \<open>ParameterDump\<close>

text \<open>\<open>request.actuator_ids or sorted(self.actuator_controller.actuator_ids)\<close>\<close>

definition requested_ids :: "controller \<Rightarrow> int list \<Rightarrow> int list" where
  "requested_ids c ids = (if ids = [] then sort (actuator_ids c) else ids)"

text \<open>The loop of lines 121-136.\<close>

fun dump_entries :: "controller \<Rightarrow> int list \<Rightarrow> (int \<times> params) list \<times> event list" where
  "dump_entries c [] = ([], [])"
| "dump_entries c (aid # ids) =
    (let rest = dump_entries c ids
     in if aid \<notin> set (actuator_ids c)
        then (fst rest,
              LogMsg (''actuator '' @ str_int aid @ '' not registered'') # snd rest)
        else (case read_all_servo_params c aid of
                Inl e \<Rightarrow>
                  (fst rest,
                   Query ''read_all_servo_params'' aid
                   # LogMsg (''failed to read parameters from actuator '' @ str_int aid
                             @ '': '' @ str_exn e)
                   # snd rest)
              | Inr param_dict \<Rightarrow>
                  ((aid, param_dict) # fst rest,
                   Query ''read_all_servo_params'' aid # snd rest)))"

text \<open>
  Lines 109-144. Nothing in the \<open>try\<close> block raises past the inner handler here, so the
  outer handler (lines 140-144) has no case.
\<close>

definition ParameterDump :: "controller \<Rightarrow> int list \<Rightarrow> grpc_context \<Rightarrow> response outcome" where
  "ParameterDump c ids ctx =
    (let ids' = requested_ids c ids;
         r = dump_entries c ids'
     in (ParameterDumpResponse (fst r), ctx,
         LogMsg (''ParameterDump request: '' @ repr_ints ids') # snd r))"

subsection \<open>GetActuatorsState\<close>

text \<open>Lines 171-178.\<close>

definition fault_strings :: "fault_info option \<Rightarrow> string list" where
  "fault_strings fi =
    (case fi of
       None \<Rightarrow> []
     | Some f \<Rightarrow> [last_fault_message f, str_int (total_faults f),
                  str_int (py_int (last_fault_time f))])"

text \<open>\<open>state_dict.get(key, 0.0)\<close>\<close>

definition dict_get :: "(string \<times> real) list \<Rightarrow> string \<Rightarrow> real \<Rightarrow> real" where
  "dict_get d k dflt = (case map_of d k of None \<Rightarrow> dflt | Some v \<Rightarrow> v)"

text \<open>Lines 157-165: the entry for an ID that the controller does not know.\<close>

definition unregistered_state :: "int \<Rightarrow> actuator_state" where
  "unregistered_state aid =
    \<lparr>st_actuator_id = aid, position = 0, velocity = 0, online = False,
     faults = [''servo not registered'']\<rparr>"

text \<open>Lines 168-195: the entry for a registered ID, or the exception of a controller call.\<close>

definition registered_state :: "controller \<Rightarrow> int \<Rightarrow> (py_exn + actuator_state) \<times> event list" where
  "registered_state c aid =
    (case get_torque_enabled c aid of
       Inl e \<Rightarrow> (Inl e, [Query ''get_torque_enabled'' aid])
     | Inr torque \<Rightarrow>
        (case get_state c aid of
           Inl e \<Rightarrow> (Inl e, [Query ''get_torque_enabled'' aid, Query ''get_state'' aid])
         | Inr state_dict \<Rightarrow>
            (case get_faults c aid of
               Inl e \<Rightarrow>
                 (Inl e, [Query ''get_torque_enabled'' aid, Query ''get_state'' aid,
                          Query ''get_faults'' aid])
             | Inr fi \<Rightarrow>
                 (Inr (case state_dict of
                         None \<Rightarrow>
                           \<lparr>st_actuator_id = aid, position = 0, velocity = 0, online = False,
                            faults = fault_strings fi\<rparr>
                       | Some d \<Rightarrow>
                           \<lparr>st_actuator_id = aid,
                            position = dict_get d ''position'' 0,
                            velocity = dict_get d ''velocity'' 0,
                            online = torque,
                            faults = fault_strings fi\<rparr>),
                  [Query ''get_torque_enabled'' aid, Query ''get_state'' aid,
                   Query ''get_faults'' aid]))))"

text \<open>The loop of lines 156-197; an exception ends it.\<close>

fun state_entries :: "controller \<Rightarrow> int list \<Rightarrow> (py_exn + actuator_state list) \<times> event list" where
  "state_entries c [] = (Inr [], [])"
| "state_entries c (aid # ids) =
    (if aid \<notin> set (actuator_ids c)
     then (case state_entries c ids of
             (Inl e, evs) \<Rightarrow> (Inl e, evs)
           | (Inr states, evs) \<Rightarrow> (Inr (unregistered_state aid # states), evs))
     else (case registered_state c aid of
             (Inl e, evs) \<Rightarrow> (Inl e, evs)
           | (Inr st, evs) \<Rightarrow>
               (case state_entries c ids of
                  (Inl e, evs') \<Rightarrow> (Inl e, evs @ evs')
                | (Inr states, evs') \<Rightarrow> (Inr (st # states), evs @ evs'))))"

text \<open>Lines 146-202.\<close>

definition GetActuatorsState :: "controller \<Rightarrow> int list \<Rightarrow> grpc_context \<Rightarrow> response outcome" where
  "GetActuatorsState c ids ctx =
    (case state_entries c (requested_ids c ids) of
       (Inr states, evs) \<Rightarrow> (GetActuatorsStateResponse states, ctx, evs)
     | (Inl e, evs) \<Rightarrow>
         (GetActuatorsStateResponse [], ctx\<lparr>code := INTERNAL, details := str_exn e\<rparr>, evs))"

subsection \<open>Concurrent calls\<close>

text \<open>The events that belong to the sequence that the lock guards.\<close>

fun critical :: "event \<Rightarrow> bool" where
  "critical Decode = True"
| "critical (Apply a) = True"
| "critical e = False"

text \<open>
  A handler's events acquire the lock before each critical event, release it after, and
  do not end holding it; the flag says whether the handler holds the lock at the start.
\<close>

fun bracketed :: "bool \<Rightarrow> event list \<Rightarrow> bool" where
  "bracketed h [] = (\<not> h)"
| "bracketed h (Acquire # t) = (\<not> h \<and> bracketed True t)"
| "bracketed h (Release # t) = (h \<and> bracketed False t)"
| "bracketed h (e # t) = ((critical e \<longrightarrow> h) \<and> bracketed h t)"

text \<open>
  A schedule interleaves the events of several calls, each tagged with its call. It is
  feasible when no call acquires the lock while a call holds it: \<open>asyncio.Lock\<close> makes
  the second one wait. The first argument is the call that holds the lock.
\<close>

fun feasible :: "nat option \<Rightarrow> (nat \<times> event) list \<Rightarrow> bool" where
  "feasible h [] = True"
| "feasible h ((i, Acquire) # s) = (h = None \<and> feasible (Some i) s)"
| "feasible h ((i, Release) # s) = feasible None s"
| "feasible h ((i, e) # s) = feasible h s"

text \<open>Every critical event of a call happens while that call holds the lock.\<close>

fun exclusive :: "nat option \<Rightarrow> (nat \<times> event) list \<Rightarrow> bool" where
  "exclusive h [] = True"
| "exclusive h ((i, Acquire) # s) = exclusive (Some i) s"
| "exclusive h ((i, Release) # s) = exclusive None s"
| "exclusive h ((i, e) # s) = ((critical e \<longrightarrow> h = Some i) \<and> exclusive h s)"

text \<open>The events of call \<open>i\<close> in a schedule.\<close>

definition proj :: "nat \<Rightarrow> (nat \<times> event) list \<Rightarrow> event list" where
  "proj i s = map snd (filter (\<lambda>p. fst p = i) s)"

text \<open>A call of one of the two operations that change the actuators.\<close>

datatype mutating_call =
    Configure_call controller configure_request grpc_context
  | Command_call controller "actuator_command list" grpc_context

fun events_of :: "mutating_call \<Rightarrow> event list" where
  "events_of (Configure_call c r ctx) = snd (snd (ConfigureActuator c r ctx))"
| "events_of (Command_call c cmds ctx) = snd (snd (CommandActuators c cmds ctx))"

section \<open>kos.py: the IMU service\<close>

text \<open>
  The names that attribute lookup finds on a \<open>BNO055Manager\<close> object: what \<open>__init__\<close>
  assigns to \<open>self\<close> (imu.py, lines 73-89), and what the class body defines (the \<open>def\<close>s
  of lines 72, 91, 115, 129, 150, 155 and 160). The class has no base class but
  \<open>object\<close>, whose attributes are all named \<open>__...__\<close>, and defines no \<open>__getattr__\<close>.
\<close>

definition instance_attributes :: "string list" where
  "instance_attributes =
    [''log'', ''update_rate'', ''_queue'', ''_process'', ''_reader_thread'', ''_stop_reader'',
     ''_buffer'', ''_lock'']"

definition class_attributes :: "string list" where
  "class_attributes =
    [''__init__'', ''start'', ''stop'', ''_reader_loop'', ''get_values'', ''get_quaternion'',
     ''get_calibration_status'']"

definition BNO055Manager_attributes :: "string list" where
  "BNO055Manager_attributes = instance_attributes @ class_attributes"

text \<open>\<open>self.imu.name\<close>\<close>

definition imu_getattr :: "string \<Rightarrow> py_exn + unit" where
  "imu_getattr name =
    (if name \<in> set BNO055Manager_attributes then Inr ()
     else Inl (AttributeError (no_attribute ''BNO055Manager'' name)))"

datatype euler_response =
    EulerAnglesResponse real real real
  | EulerAnglesResponse_error string

datatype advanced_response =
    IMUAdvancedValuesResponse real real real real real real real
  | IMUAdvancedValuesResponse_error string

text \<open>
  The two \<open>except\<close> clauses that every method of \<open>IMUService\<close> ends with. The first
  names \<open>IMUNotAvailableError\<close>, which line 17 of kos.py imports from \<open>kos_zbot.imu\<close>;
  imu.py does not define it. The class is therefore a parameter here: \<open>unavailable e\<close>
  says that the exception \<open>e\<close> is an instance of it.
\<close>

definition imu_except ::
  "(py_exn \<Rightarrow> bool) \<Rightarrow> py_exn \<Rightarrow> grpc_context \<Rightarrow> (string \<Rightarrow> 'r) \<Rightarrow> 'r \<times> grpc_context" where
  "imu_except unavailable e ctx mk =
    (if unavailable e
     then (mk (str_exn e), ctx\<lparr>code := UNAVAILABLE, details := str_exn e\<rparr>)
     else (mk (str_exn e), ctx\<lparr>code := INTERNAL, details := str_exn e\<rparr>))"

text \<open>
  Lines 261-277. \<open>result\<close> is what calling the method would return or raise, were the
  attribute there.
\<close>

definition GetEuler ::
  "(py_exn \<Rightarrow> bool) \<Rightarrow> py_exn + real \<times> real \<times> real \<Rightarrow> grpc_context
     \<Rightarrow> euler_response \<times> grpc_context" where
  "GetEuler unavailable result ctx =
    (case (case imu_getattr ''get_euler'' of Inl e \<Rightarrow> Inl e | Inr u \<Rightarrow> result) of
       Inr (roll, pitch, yaw) \<Rightarrow> (EulerAnglesResponse roll pitch yaw, ctx)
     | Inl e \<Rightarrow> imu_except unavailable e ctx EulerAnglesResponse_error)"

text \<open>Lines 279-303; \<open>result\<close> as above, the two vectors with three elements each.\<close>

definition GetAdvancedValues ::
  "(py_exn \<Rightarrow> bool) \<Rightarrow> py_exn + (real \<times> real \<times> real) \<times> (real \<times> real \<times> real) \<times> real
     \<Rightarrow> grpc_context \<Rightarrow> advanced_response \<times> grpc_context" where
  "GetAdvancedValues unavailable result ctx =
    (case (case imu_getattr ''get_advanced_values'' of Inl e \<Rightarrow> Inl e | Inr u \<Rightarrow> result) of
       Inr ((lx, ly, lz), (gx, gy, gz), temp) \<Rightarrow>
         (IMUAdvancedValuesResponse lx ly lz gx gy gz temp, ctx)
     | Inl e \<Rightarrow> imu_except unavailable e ctx IMUAdvancedValuesResponse_error)"

text \<open>
  One way to supply the class: \<open>class IMUNotAvailableError(Exception)\<close>, a class of
  its own, whose instances are the exceptions raised under that name.
\<close>

fun own_class :: "py_exn \<Rightarrow> bool" where
  "own_class (UserDefined cls m) = (cls = ''IMUNotAvailableError'')"
| "own_class e = False"

section \<open>Two controllers to run the handlers on\<close>

text \<open>
  A controller that knows the single ID 1 and answers every call, and one whose changing
  methods raise \<open>RuntimeError\<close>, as a lower layer does that finds an operation in
  progress.
\<close>

definition demo_controller :: controller where
  "demo_controller =
    \<lparr>actuator_ids = [1],
     configure_actuator = (\<lambda>aid cfg. Inr True),
     set_positions = (\<lambda>d. Inr ()),
     read_all_servo_params = (\<lambda>aid. Inr [(''id'', aid)]),
     get_torque_enabled = (\<lambda>aid. Inr True),
     get_state = (\<lambda>aid. Inr (Some [(''position'', 1.5), (''velocity'', 0.25)])),
     get_faults = (\<lambda>aid. Inr None)\<rparr>"

definition busy_controller :: controller where
  "busy_controller =
    demo_controller
      \<lparr>configure_actuator := (\<lambda>aid cfg. Inl (RuntimeError ''operation already in progress'')),
       set_positions := (\<lambda>d. Inl (RuntimeError ''operation already in progress''))\<rparr>"

definition failing_controller :: controller where
  "failing_controller =
    demo_controller\<lparr>set_positions := (\<lambda>d. Inl (OtherException ''serial port closed''))\<rparr>"

text \<open>The same controller with a fault on record for its actuator.\<close>

definition faulty_controller :: controller where
  "faulty_controller =
    demo_controller
      \<lparr>get_faults :=
         (\<lambda>aid. Inr (Some \<lparr>last_fault_message = ''overload'', total_faults = 3,
                             last_fault_time = 1712.9\<rparr>))\<rparr>"

definition ctx0 :: grpc_context where
  "ctx0 = \<lparr>code = OK, details = ''''\<rparr>"

definition plain_request :: "int \<Rightarrow> configure_request" where
  "plain_request aid =
    \<lparr>req_actuator_id = aid, torque_enabled = Some True, zero_position = None, kp = None,
     kd = None, ki = None, max_torque = None, acceleration = None, new_actuator_id = None\<rparr>"

section \<open>The State Buffer never holds a null\<close>

lemma fully_valid_the: "fully_valid f \<Longrightarrow> all_not_None (the f)"
  by (cases f) (simp_all add: fully_valid_def)

lemma merge_sample_slots:
  "accel (merge_sample b s) = (if fully_valid (s_accel s) then the (s_accel s) else accel b)"
  "gyro (merge_sample b s) = (if fully_valid (s_gyro s) then the (s_gyro s) else gyro b)"
  "mag (merge_sample b s) = (if fully_valid (s_mag s) then the (s_mag s) else mag b)"
  "quat (merge_sample b s) = (if fully_valid (s_quat s) then the (s_quat s) else quat b)"
  "calib (merge_sample b s) = (if fully_valid (s_calib s) then the (s_calib s) else calib b)"
  by (simp_all add: merge_sample_def Let_def)

lemma merge_sample_no_null: "no_null b \<Longrightarrow> no_null (merge_sample b s)"
  by (simp add: no_null_def merge_sample_slots fully_valid_the)

lemma reader_loop_no_null: "no_null b \<Longrightarrow> no_null (reader_loop gs b)"
proof (induction gs arbitrary: b)
  case Nil
  then show ?case by simp
next
  case (Cons g gs)
  then show ?case by (cases g) (simp_all add: merge_sample_no_null)
qed

lemma init_buffer_no_null: "no_null init_buffer"
  by (simp add: no_null_def init_buffer_def all_not_None_def)

text \<open>
  C1. Merging a sample overwrites a slot exactly when the sample's tuple for that field
  is not \<open>None\<close> and has no \<open>None\<close> element, and keeps the slot's previous value
  otherwise; so from the zero-valued defaults, after any sequence of queue outcomes the
  buffer holds no tuple with a \<open>None\<close> in it.
\<close>

theorem buffer_slot_overwritten_only_by_valid_tuple:
  "accel (merge_sample b s) = (if fully_valid (s_accel s) then the (s_accel s) else accel b)
   \<and> gyro (merge_sample b s) = (if fully_valid (s_gyro s) then the (s_gyro s) else gyro b)
   \<and> mag (merge_sample b s) = (if fully_valid (s_mag s) then the (s_mag s) else mag b)
   \<and> quat (merge_sample b s) = (if fully_valid (s_quat s) then the (s_quat s) else quat b)
   \<and> calib (merge_sample b s) = (if fully_valid (s_calib s) then the (s_calib s) else calib b)
   \<and> no_null (reader_loop gs init_buffer)"
  by (simp add: merge_sample_slots reader_loop_no_null init_buffer_no_null)

text \<open>
  A sample whose gyro tuple has a \<open>None\<close> element and whose quaternion is \<open>None\<close>:
  the two slots keep the defaults, the three others take the new tuples.
\<close>

theorem buffer_slot_overwritten_only_by_valid_tuple_witness:
  "reader_loop
     [None,
      Some \<lparr>s_accel = Some [Some 1, Some 2, Some 3], s_gyro = Some [Some 4, None, Some 6],
            s_mag = Some [Some 7, Some 8, Some 9], s_quat = None,
            s_calib = Some [Some 3, Some 3, Some 3, Some 3]\<rparr>]
     init_buffer =
   \<lparr>accel = [Some 1, Some 2, Some 3], gyro = [Some 0, Some 0, Some 0],
    mag = [Some 7, Some 8, Some 9], quat = [Some 0, Some 0, Some 0, Some 0],
    calib = [Some 3, Some 3, Some 3, Some 3]\<rparr>
   \<and> no_null (reader_loop
     [None,
      Some \<lparr>s_accel = Some [Some 1, Some 2, Some 3], s_gyro = Some [Some 4, None, Some 6],
            s_mag = Some [Some 7, Some 8, Some 9], s_quat = None,
            s_calib = Some [Some 3, Some 3, Some 3, Some 3]\<rparr>]
     init_buffer)"
  using buffer_slot_overwritten_only_by_valid_tuple
    [of init_buffer
        "\<lparr>s_accel = Some [Some 1, Some 2, Some 3], s_gyro = Some [Some 4, None, Some 6],
          s_mag = Some [Some 7, Some 8, Some 9], s_quat = None,
          s_calib = Some [Some 3, Some 3, Some 3, Some 3]\<rparr>"
        "[None,
          Some \<lparr>s_accel = Some [Some 1, Some 2, Some 3], s_gyro = Some [Some 4, None, Some 6],
                s_mag = Some [Some 7, Some 8, Some 9], s_quat = None,
                s_calib = Some [Some 3, Some 3, Some 3, Some 3]\<rparr>]"]
  by (simp add: merge_sample_def Let_def fully_valid_def all_not_None_def init_buffer_def)

section \<open>The Handoff Channel holds at most one sample, the latest\<close>

lemma chan_inv_init: "chan_inv init_channel"
  by (simp add: chan_inv_def init_channel_def held_def)

lemma chan_inv_pop: "chan_inv c \<Longrightarrow> chan_inv (snd (pop c))"
  by (auto simp: chan_inv_def pop_def held_def split: list.splits)

lemma chan_inv_feed: "chan_inv c \<Longrightarrow> chan_inv (feed c)"
  by (auto simp: chan_inv_def feed_def held_def split: list.splits)

lemma chan_inv_step_full: "chan_inv c \<Longrightarrow> chan_inv (step_full d c)"
  by (simp add: chan_inv_def step_full_def held_def)

lemma chan_inv_step_get: "chan_inv c \<Longrightarrow> chan_inv (step_get d c)"
  by (auto simp: chan_inv_def step_get_def get_nowait_def held_def split: list.splits)

lemma chan_inv_step_put: "chan_inv c \<Longrightarrow> chan_inv (step_put d c)"
  by (cases "pending c"; cases "pipe c")
     (simp_all add: chan_inv_def step_put_def put_nowait_def q_full_def maxsize_def held_def)

lemma chan_inv_producer_step: "chan_inv c \<Longrightarrow> chan_inv (producer_step d c)"
  by (cases "ppc c")
     (simp_all add: producer_step_def chan_inv_step_full chan_inv_step_get chan_inv_step_put)

lemma chan_inv_run: "chan_inv c \<Longrightarrow> chan_inv (run es c)"
proof (induction es arbitrary: c)
  case Nil
  then show ?case by simp
next
  case (Cons e es)
  then show ?case
    by (cases e) (simp_all add: chan_inv_producer_step chan_inv_pop chan_inv_feed)
qed

lemma chan_inv_pop_last: "chan_inv c \<Longrightarrow> fst (pop c) = None \<or> fst (pop c) = last_put c"
  by (auto simp: chan_inv_def pop_def split: list.splits)

lemma ppc_producer_step:
  "ppc (producer_step d c) =
     (case ppc c of Idle \<Rightarrow> (if q_full c then AtGet d else AtPut d)
      | AtGet d' \<Rightarrow> AtPut d' | AtPut d' \<Rightarrow> Idle)"
  by (cases "ppc c")
     (simp_all add: producer_step_def step_full_def step_get_def step_put_def
        split: sum.splits prod.splits)

lemma run_append: "run (es @ fs) c = run fs (run es c)"
proof (induction es arbitrary: c)
  case Nil
  then show ?case by simp
next
  case (Cons e es)
  then show ?case by (cases e) simp_all
qed

lemma others_Cons: "others (e # es) = (\<not> is_Producer e \<and> others es)"
  by (simp add: others_def)

lemma others_run_ppc: "others os \<Longrightarrow> ppc (run os c) = ppc c"
proof (induction os arbitrary: c)
  case Nil
  then show ?case by simp
next
  case (Cons e os)
  then show ?case
    by (cases e) (simp_all add: others_Cons pop_def feed_def split: list.splits)
qed

lemma others_run_empty:
  "others os \<Longrightarrow> pending c = [] \<Longrightarrow> pipe c = [] \<Longrightarrow> run os c = c"
proof (induction os arbitrary: c)
  case Nil
  then show ?case by simp
next
  case (Cons e os)
  then show ?case
    by (cases e) (simp_all add: others_Cons pop_def feed_def)
qed

lemma others_run_flushed:
  "others os \<Longrightarrow> pending c = [] \<Longrightarrow>
   \<exists>p. run os c = c\<lparr>pipe := p\<rparr> \<and> length p \<le> length (pipe c)"
proof (induction os arbitrary: c)
  case Nil
  have "run [] c = c\<lparr>pipe := pipe c\<rparr>"
    by simp
  then show ?case by blast
next
  case (Cons e os)
  show ?case
  proof (cases e)
    case (Producer d)
    with Cons.prems show ?thesis by (simp add: others_Cons)
  next
    case Consumer
    define c' where "c' = snd (pop c)"
    have c': "c' = c\<lparr>pipe := tl (pipe c)\<rparr>"
      by (cases "pipe c") (simp_all add: c'_def pop_def)
    from Cons.prems have "others os" "pending c' = []"
      by (simp_all add: others_Cons c')
    from Cons.IH [OF this] obtain p
      where p: "run os c' = c'\<lparr>pipe := p\<rparr>" "length p \<le> length (pipe c')"
      by blast
    have "run (e # os) c = c\<lparr>pipe := p\<rparr>"
      using p(1) by (simp add: Consumer c'_def [symmetric]) (simp add: c')
    moreover have "length p \<le> length (pipe c)"
      using p(2) by (simp add: c')
    ultimately show ?thesis by blast
  next
    case Feeder
    from Cons.prems have "others os" "feed c = c"
      by (simp_all add: others_Cons feed_def)
    with Cons.IH [of c] Cons.prems(2) Feeder show ?thesis by simp
  qed
qed

text \<open>
  A push that begins when the occupant, if any, is readable: whatever the reader and the
  feeder do between its operations, the channel ends up holding the new sample alone.
\<close>

lemma push_interleaved:
  assumes os: "others os1" "others os2"
    and c: "ppc c = Idle" "pending c = []" "length (pipe c) \<le> 1"
  shows "run (Producer d # os1 @ Producer d1 # (if q_full c then os2 @ [Producer d2] else [])) c =
     c\<lparr>pending := [d], pipe := [], last_put := Some d\<rparr>"
proof (cases "pipe c")
  case Nil
  with c have nf: "\<not> q_full c"
    by (simp add: q_full_def held_def maxsize_def)
  define c1 where "c1 = c\<lparr>ppc := AtPut d\<rparr>"
  have s1: "producer_step d c = c1"
    using c nf by (simp add: producer_step_def step_full_def c1_def)
  have s2: "run os1 c1 = c1"
    using os(1) c(2) Nil by (intro others_run_empty) (simp_all add: c1_def)
  have s3: "producer_step d1 c1 = c\<lparr>pending := [d], pipe := [], last_put := Some d\<rparr>"
    using c Nil
    by (cases c)
       (simp add: c1_def producer_step_def step_put_def put_nowait_def q_full_def held_def
          maxsize_def)
  show ?thesis
    using nf by (simp add: run_append s1 s2 s3)
next
  case (Cons x xs)
  with c have xs: "xs = []" and f: "q_full c"
    by (simp_all add: q_full_def held_def maxsize_def)
  define c1 where "c1 = c\<lparr>ppc := AtGet d\<rparr>"
  define c2 where "c2 = c\<lparr>pipe := [], ppc := AtPut d\<rparr>"
  have s1: "producer_step d c = c1"
    using c f by (simp add: producer_step_def step_full_def c1_def)
  obtain p where p: "run os1 c1 = c1\<lparr>pipe := p\<rparr>" "length p \<le> length (pipe c1)"
    using others_run_flushed [OF os(1), of c1] c(2) by (auto simp: c1_def)
  have "length p \<le> 1"
    using p(2) c(3) by (simp add: c1_def)
  then have s2: "producer_step d1 (run os1 c1) = c2"
    unfolding p(1)
    by (cases p) (simp_all add: c1_def c2_def producer_step_def step_get_def get_nowait_def)
  have s3: "run os2 c2 = c2"
    using os(2) c(2) by (intro others_run_empty) (simp_all add: c2_def)
  have s4: "producer_step d2 c2 = c\<lparr>pending := [d], pipe := [], last_put := Some d\<rparr>"
    using c
    by (cases c)
       (simp add: c2_def producer_step_def step_put_def put_nowait_def q_full_def held_def
          maxsize_def)
  show ?thesis
    using f by (simp add: run_append s1 s2 s3 s4)
qed

text \<open>A push is over after three queue operations of the producer, or two.\<close>

lemma push_returns:
  assumes "others os1" "others os2" "ppc c = Idle"
  shows "ppc (run (Producer d # os1 @ Producer d1 # (if q_full c then os2 @ [Producer d2] else []))
               c) = Idle"
  using assms by (simp add: run_append others_run_ppc ppc_producer_step)

text \<open>The operations of a push one after the other are \<open>push\<close>.\<close>

lemma run_push:
  assumes "ppc c = Idle"
  shows "run (replicate (if q_full c then 3 else 2) (Producer d)) c = push d c"
proof (cases "q_full c")
  case True
  have "replicate 3 (Producer d) = [Producer d, Producer d, Producer d]"
    by (simp add: numeral_3_eq_3)
  with True assms show ?thesis
    by (simp add: push_def Let_def producer_step_def step_full_def step_get_def
        split: sum.splits prod.splits)
next
  case False
  have "replicate 2 (Producer d) = [Producer d, Producer d]"
    by (simp add: numeral_2_eq_2)
  with False assms show ?thesis
    by (simp add: push_def Let_def producer_step_def step_full_def)
qed

lemma push_result:
  assumes "chan_inv c" "ppc c = Idle"
  shows "push d c =
     (if pending c = [] then c\<lparr>pending := [d], pipe := [], last_put := Some d\<rparr> else c)"
  using assms
  by (cases c; cases "pending c"; cases "pipe c")
     (simp_all add: chan_inv_def push_def Let_def step_full_def step_get_def step_put_def
        get_nowait_def put_nowait_def q_full_def held_def maxsize_def)

text \<open>
  C2. After any interleaving \<open>es\<close> of queue operations of the sampler, the reader and
  the queue's feeder thread, the channel holds at most one sample, and a pop returns the
  sample of the last successful put or nothing. Let a push of \<open>d\<close> begin in the state
  \<open>c\<close> reached then, with the reader and the feeder doing \<open>os1\<close> and \<open>os2\<close> between
  its queue operations. The push never waits: it is over after its own two operations
  (three, when it found the channel full), whatever \<open>os1\<close> and \<open>os2\<close> are. When the
  occupant of \<open>c\<close>, if there is one, is readable, it is gone afterwards and the channel
  holds \<open>d\<close> alone, as the last successful put. With nothing in between, the operations
  of the push are \<open>push\<close>, which does the same and, when the occupant is not yet
  readable, passes over the empty get and the full put and leaves the channel as it was.
\<close>

theorem channel_holds_at_most_the_latest:
  assumes "others os1" and "others os2" and "c = run es init_channel"
  shows "held c \<le> 1
   \<and> (fst (pop c) = None \<or> fst (pop c) = last_put c)
   \<and> (ppc c = Idle \<longrightarrow>
        ppc (run (Producer d # os1 @ Producer d1 # (if q_full c then os2 @ [Producer d2] else []))
               c) = Idle)
   \<and> (ppc c = Idle \<and> pending c = [] \<longrightarrow>
        run (Producer d # os1 @ Producer d1 # (if q_full c then os2 @ [Producer d2] else [])) c =
          c\<lparr>pending := [d], pipe := [], last_put := Some d\<rparr>)
   \<and> (ppc c = Idle \<longrightarrow>
        run (replicate (if q_full c then 3 else 2) (Producer d)) c = push d c
        \<and> push d c =
            (if pending c = [] then c\<lparr>pending := [d], pipe := [], last_put := Some d\<rparr> else c))"
proof -
  have inv: "chan_inv c"
    unfolding assms(3) by (rule chan_inv_run [OF chan_inv_init])
  then have h: "held c \<le> 1"
    by (simp add: chan_inv_def)
  then have l: "length (pipe c) \<le> 1"
    by (simp add: held_def)
  have p: "fst (pop c) = None \<or> fst (pop c) = last_put c"
    by (rule chan_inv_pop_last [OF inv])
  have r: "ppc c = Idle \<longrightarrow>
        ppc (run (Producer d # os1 @ Producer d1 # (if q_full c then os2 @ [Producer d2] else []))
               c) = Idle"
    using push_returns [OF assms(1,2)] by blast
  have e: "ppc c = Idle \<and> pending c = [] \<longrightarrow>
        run (Producer d # os1 @ Producer d1 # (if q_full c then os2 @ [Producer d2] else [])) c =
          c\<lparr>pending := [d], pipe := [], last_put := Some d\<rparr>"
    using push_interleaved [OF assms(1,2) _ _ l] by blast
  have q: "ppc c = Idle \<longrightarrow>
        run (replicate (if q_full c then 3 else 2) (Producer d)) c = push d c
        \<and> push d c =
            (if pending c = [] then c\<lparr>pending := [d], pipe := [], last_put := Some d\<rparr> else c)"
    using run_push [of c d] push_result [OF inv, of d] by blast
  from h p r e q show ?thesis
    by (intro conjI)
qed

text \<open>
  The sampler puts 1 and the feeder flushes it. The sampler then pushes 2, with the
  feeder running in between and the reader not at all: 1 is gone, and a pop returns 2.
\<close>

theorem channel_holds_at_most_the_latest_witness:
  "others [Feeder :: nat actor]
   \<and> run [Producer 1, Producer 1, Feeder] init_channel =
       \<lparr>pending = [], pipe = [1::nat], ppc = Idle, last_put = Some 1\<rparr>
   \<and> run [Producer 2, Feeder, Producer 2, Feeder, Producer 2]
         \<lparr>pending = [], pipe = [1::nat], ppc = Idle, last_put = Some 1\<rparr> =
       \<lparr>pending = [2], pipe = [], ppc = Idle, last_put = Some 2\<rparr>
   \<and> fst (pop (run [Producer 1, Producer 1, Feeder, Producer 2, Feeder, Producer 2, Feeder,
                    Producer 2, Feeder] (init_channel :: nat channel))) = Some 2"
  using channel_holds_at_most_the_latest
    [of "[Feeder]" "[Feeder]" "\<lparr>pending = [], pipe = [1::nat], ppc = Idle, last_put = Some 1\<rparr>"
        "[Producer 1, Producer 1, Feeder]" 2 2 2]
  by (simp add: others_def init_channel_def producer_step_def step_full_def step_get_def
      step_put_def get_nowait_def put_nowait_def q_full_def held_def maxsize_def pop_def
      feed_def)

section \<open>The Sampler's deadline\<close>



section \<open>A failed sensor read\<close>

lemma tick_read_failure:
  "reading ob = Inl e \<Longrightarrow>
   fst (tick period ob s) =
     \<lparr>next_deadline = (if now ob > next_deadline s then now ob else next_deadline s) + period,
      chan = chan s, slog = slog s @ [''Failed to read sensor values'']\<rparr>"
  by (simp add: tick_def Let_def)

lemma sensor_proc_returns:
  "rate_hz \<noteq> 0 \<Longrightarrow>
   sensor_proc q rate_hz t0 obs =
     Inr (sensor_loop (1 / real_of_int rate_hz) obs \<lparr>next_deadline = t0, chan = q, slog = []\<rparr>)"
  by (simp add: sensor_proc_def period_of_def)

text \<open>
  C8. In a tick whose sensor read raises, the exception is caught and logged, the channel
  is left as it was, and the loop goes on with the next tick from the state with the
  advanced deadline; the sampler process does not end with the exception.
\<close>

theorem read_failure_skips_the_tick:
  assumes "reading ob = Inl e"
  shows "chan (fst (tick period ob s)) = chan s
   \<and> slog (fst (tick period ob s)) = slog s @ [''Failed to read sensor values'']
   \<and> sensor_loop period (ob # obs) s =
       sensor_loop period obs
         \<lparr>next_deadline = (if now ob > next_deadline s then now ob else next_deadline s) + period,
          chan = chan s, slog = slog s @ [''Failed to read sensor values'']\<rparr>
   \<and> (rate_hz \<noteq> 0 \<longrightarrow>
        sensor_proc q rate_hz t0 (obs1 @ ob # obs2) =
          Inr (sensor_loop (1 / real_of_int rate_hz) (obs1 @ ob # obs2)
                 \<lparr>next_deadline = t0, chan = q, slog = []\<rparr>))"
  using assms by (simp add: tick_read_failure sensor_proc_returns)

theorem read_failure_skips_the_tick_witness:
  "reading \<lparr>now = 1, reading = Inl (OtherException ''I2C''), now_after = 2\<rparr>
     = Inl (OtherException ''I2C'')
   \<and> (100::int) \<noteq> 0
   \<and> sensor_proc init_channel 100 0
       [\<lparr>now = 1, reading = Inl (OtherException ''I2C''), now_after = 2\<rparr>] =
     Inr \<lparr>next_deadline = 1 + 1 / 100, chan = init_channel,
          slog = [''Failed to read sensor values'']\<rparr>"
  using read_failure_skips_the_tick
    [of "\<lparr>now = 1, reading = Inl (OtherException ''I2C''), now_after = 2\<rparr>"
        "OtherException ''I2C''" "1 / 100" "\<lparr>next_deadline = 0, chan = init_channel, slog = []\<rparr>"
        "[]" 100 init_channel 0 "[]" "[]"]
  by (simp add: sensor_proc_def period_of_def)

section \<open>Stopping the manager\<close>

lemma handles_started_init: "handles_started (init_manager r)"
  by (simp add: handles_started_def init_manager_def)

lemma handles_started_start:
  "handles_started m \<Longrightarrow> handles_started (snd (start returning m))"
  by (auto simp: handles_started_def start_def start_reader_def returning_def running_def
      split: option.splits)

lemma stop_of_started:
  assumes "handles_started m"
  shows "stop m =
     Inr (m\<lparr>process := None, reader_thread := None,
            stop_reader := (reader_thread m \<noteq> None \<or> stop_reader m),
            ops := ops m @ (if process m = None then [] else [ProcessTerminate, ProcessJoin])
                         @ (if reader_thread m = None then [] else [StopSet, ThreadJoin]),
            mlog := mlog m @ (if process m = None then [] else [''Sensor process stopped''])
                           @ (if reader_thread m = None then [] else [''Reader thread stopped''])\<rparr>)"
  using assms
  by (cases "process m"; cases "reader_thread m")
     (simp_all add: handles_started_def stop_def stop_process_def stop_thread_def
        process_terminate_def process_join_def thread_join_def)

lemma handles_started_stop: "handles_started m \<Longrightarrow> stop m = Inr m' \<Longrightarrow> handles_started m'"
  by (simp add: stop_of_started) (auto simp: handles_started_def)

lemma calls_started:
  "list_all start_returns cs \<Longrightarrow> handles_started m \<Longrightarrow>
   \<exists>m'. calls cs m = Inr m' \<and> handles_started m'"
proof (induction cs arbitrary: m)
  case Nil
  then show ?case by simp
next
  case (Cons c cs)
  from Cons.prems have rest: "list_all start_returns cs"
    by simp
  show ?case
  proof (cases c)
    case (Start env)
    with Cons.prems have "env = returning"
      by simp
    with Cons.prems have "handles_started (snd (start env m))"
      by (simp add: handles_started_start)
    from Cons.IH [OF rest this] Start show ?thesis by simp
  next
    case Stop
    from Cons.prems obtain m1 where m1: "stop m = Inr m1"
      by (simp add: stop_of_started)
    with Cons.prems have "handles_started m1"
      by (rule_tac handles_started_stop)
    from Cons.IH [OF rest this] Stop m1 show ?thesis by simp
  next
    case SamplerExits
    from Cons.prems
    have "handles_started (m\<lparr>process := map_option (\<lambda>p. p\<lparr>alive := False\<rparr>) (process m)\<rparr>)"
      by (auto simp: handles_started_def split: option.splits)
    from Cons.IH [OF rest this] SamplerExits show ?thesis by simp
  qed
qed

lemma stop_twice:
  "process m = None \<Longrightarrow> reader_thread m = None \<Longrightarrow> stop m = Inr m"
  by (simp add: stop_def stop_process_def stop_thread_def)

lemma start_after_stop:
  "process m = None \<Longrightarrow> reader_thread m = None \<Longrightarrow>
   fst (start returning m) = None
   \<and> process (snd (start returning m)) = Some \<lparr>started = True, alive = True\<rparr>
   \<and> reader_thread (snd (start returning m)) = Some \<lparr>started = True, alive = True\<rparr>
   \<and> \<not> stop_reader (snd (start returning m))"
  by (simp add: start_def start_reader_def returning_def running_def)

text \<open>
  C9 as stated fails for a manager on which \<open>start\<close> raised inside
  \<open>Process.start\<close>: \<open>self._process\<close> then holds a process object that was never
  started, and \<open>stop\<close> raises in \<open>terminate\<close>, with both handles left as they were.
\<close>

theorem stop_raises_after_failed_start:
  "fst (start \<lparr>process_start = Some (OtherException ''cannot allocate memory''),
              thread_start = None\<rparr> (init_manager 100)) =
     Some (OtherException ''cannot allocate memory'')
   \<and> process (snd (start \<lparr>process_start = Some (OtherException ''cannot allocate memory''),
                          thread_start = None\<rparr> (init_manager 100))) =
     Some \<lparr>started = False, alive = False\<rparr>
   \<and> stop (snd (start \<lparr>process_start = Some (OtherException ''cannot allocate memory''),
                       thread_start = None\<rparr> (init_manager 100))) =
     Inl (Raised (AttributeError ([CHR 0x27] @ ''NoneType' object has no attribute 'terminate''
                                  @ [CHR 0x27])))"
  by (simp add: start_def running_def init_manager_def stop_def stop_process_def
      process_terminate_def no_attribute_def quoted_def)

text \<open>
  C9, amended. After any sequence of calls of \<open>stop\<close> and of calls of \<open>start\<close> that
  returned (none, for a manager just constructed; also with the sampler process having
  ended on its own), \<open>stop\<close> returns without raising and without waiting for ever; when
  there was a sampler process it has been terminated and joined, and when there was a
  reader thread the stop event has been set and the thread joined, before \<open>stop\<close>
  returns; both handles are \<open>None\<close> afterwards; a second \<open>stop\<close> returns the same
  state; and a \<open>start\<close> after it creates and starts both anew, with the stop event
  cleared.
\<close>

theorem stop_is_safe_and_idempotent_after_starts_that_returned:
  assumes "list_all start_returns cs"
  shows "\<exists>m m'. calls cs (init_manager r) = Inr m
     \<and> stop m = Inr m'
     \<and> process m' = None \<and> reader_thread m' = None
     \<and> ops m' = ops m @ (if process m = None then [] else [ProcessTerminate, ProcessJoin])
                      @ (if reader_thread m = None then [] else [StopSet, ThreadJoin])
     \<and> stop_reader m' = (reader_thread m \<noteq> None \<or> stop_reader m)
     \<and> stop m' = Inr m'
     \<and> fst (start returning m') = None
     \<and> process (snd (start returning m')) = Some \<lparr>started = True, alive = True\<rparr>
     \<and> reader_thread (snd (start returning m')) = Some \<lparr>started = True, alive = True\<rparr>
     \<and> \<not> stop_reader (snd (start returning m'))"
proof -
  obtain m where m: "calls cs (init_manager r) = Inr m" and st: "handles_started m"
    using calls_started [OF assms handles_started_init] by blast
  define m' where "m' = m\<lparr>process := None, reader_thread := None,
            stop_reader := (reader_thread m \<noteq> None \<or> stop_reader m),
            ops := ops m @ (if process m = None then [] else [ProcessTerminate, ProcessJoin])
                         @ (if reader_thread m = None then [] else [StopSet, ThreadJoin]),
            mlog := mlog m @ (if process m = None then [] else [''Sensor process stopped''])
                           @ (if reader_thread m = None then [] else [''Reader thread stopped''])\<rparr>"
  have s: "stop m = Inr m'"
    unfolding m'_def by (rule stop_of_started [OF st])
  have none: "process m' = None" "reader_thread m' = None"
    by (simp_all add: m'_def)
  have "stop m' = Inr m'"
    by (rule stop_twice [OF none])
  moreover note start_after_stop [OF none]
  moreover have "ops m' = ops m @ (if process m = None then [] else [ProcessTerminate, ProcessJoin])
                      @ (if reader_thread m = None then [] else [StopSet, ThreadJoin])"
    "stop_reader m' = (reader_thread m \<noteq> None \<or> stop_reader m)"
    by (simp_all add: m'_def)
  ultimately show ?thesis
    using m s none by blast
qed

text \<open>
  \<open>stop\<close> on a manager just constructed changes nothing; after \<open>start\<close> it terminates and
  joins the process, sets the event and joins the thread; a second \<open>stop\<close> adds nothing.
\<close>

theorem stop_is_safe_and_idempotent_after_starts_that_returned_witness:
  "list_all start_returns [] \<and> list_all start_returns [Start returning, Stop]
   \<and> stop (init_manager 100) = Inr (init_manager 100)
   \<and> (\<exists>m'. calls [Start returning, Stop, Stop] (init_manager 100) = Inr m'
        \<and> process m' = None \<and> reader_thread m' = None
        \<and> ops m' = [ProcessStart, StopClear, ThreadStart,
                    ProcessTerminate, ProcessJoin, StopSet, ThreadJoin])"
  using stop_is_safe_and_idempotent_after_starts_that_returned [of "[]" 100]
    stop_is_safe_and_idempotent_after_starts_that_returned [of "[Start returning, Stop]" 100]
  by (simp add: init_manager_def start_def start_reader_def returning_def running_def stop_def
      stop_process_def stop_thread_def process_terminate_def process_join_def thread_join_def)

section \<open>The Command Lock\<close>

lemma bracketed_ConfigureActuator:
  "bracketed False (snd (snd (ConfigureActuator c r ctx)))"
  by (cases "configure_actuator c (req_actuator_id r) (build_config r)")
     (simp_all add: ConfigureActuator_def configure_body_def with_lock_def Let_def)

lemma bracketed_CommandActuators:
  "bracketed False (snd (snd (CommandActuators c cmds ctx)))"
  by (cases "set_positions c (servo_commands c cmds)")
     (simp_all add: CommandActuators_def command_body_def with_lock_def Let_def)

lemma bracketed_events_of: "bracketed False (events_of k)"
  by (cases k) (simp_all add: bracketed_ConfigureActuator bracketed_CommandActuators)

lemma lock_once_ConfigureActuator:
  "count_list (snd (snd (ConfigureActuator c r ctx))) Acquire = 1
   \<and> count_list (snd (snd (ConfigureActuator c r ctx))) Release = 1"
  by (cases "configure_actuator c (req_actuator_id r) (build_config r)")
     (simp_all add: ConfigureActuator_def configure_body_def with_lock_def Let_def)

lemma lock_once_CommandActuators:
  "count_list (snd (snd (CommandActuators c cmds ctx))) Acquire = 1
   \<and> count_list (snd (snd (CommandActuators c cmds ctx))) Release = 1"
  by (cases "set_positions c (servo_commands c cmds)")
     (simp_all add: CommandActuators_def command_body_def with_lock_def Let_def)

lemma lock_once_events_of:
  "count_list (events_of k) Acquire = 1 \<and> count_list (events_of k) Release = 1"
  by (cases k) (simp_all add: lock_once_ConfigureActuator lock_once_CommandActuators)

lemma dump_entries_no_lock:
  "Acquire \<notin> set (snd (dump_entries c ids)) \<and> Release \<notin> set (snd (dump_entries c ids))"
  by (induction ids) (auto simp: Let_def split: sum.splits)

lemma ParameterDump_no_lock:
  "Acquire \<notin> set (snd (snd (ParameterDump c ids ctx)))
   \<and> Release \<notin> set (snd (snd (ParameterDump c ids ctx)))"
  by (simp add: ParameterDump_def Let_def dump_entries_no_lock)

lemma registered_state_no_lock:
  "Acquire \<notin> set (snd (registered_state c aid)) \<and> Release \<notin> set (snd (registered_state c aid))"
  by (simp add: registered_state_def split: sum.splits)

lemma state_entries_no_lock:
  "Acquire \<notin> set (snd (state_entries c ids)) \<and> Release \<notin> set (snd (state_entries c ids))"
proof (induction ids)
  case Nil
  then show ?case by simp
next
  case (Cons aid ids)
  obtain r1 e1 where rs: "registered_state c aid = (r1, e1)"
    by (cases "registered_state c aid")
  obtain r2 e2 where se: "state_entries c ids = (r2, e2)"
    by (cases "state_entries c ids")
  from registered_state_no_lock [of c aid] rs
  have "Acquire \<notin> set e1 \<and> Release \<notin> set e1" by simp
  moreover from Cons.IH se have "Acquire \<notin> set e2 \<and> Release \<notin> set e2" by simp
  ultimately show ?case
    using rs se by (cases r1; cases r2) simp_all
qed

lemma GetActuatorsState_no_lock:
  "Acquire \<notin> set (snd (snd (GetActuatorsState c ids ctx)))
   \<and> Release \<notin> set (snd (snd (GetActuatorsState c ids ctx)))"
proof -
  obtain r e where se: "state_entries c (requested_ids c ids) = (r, e)"
    by (cases "state_entries c (requested_ids c ids)")
  with state_entries_no_lock [of c "requested_ids c ids"]
  show ?thesis by (cases r) (simp_all add: GetActuatorsState_def)
qed

lemma proj_Cons: "proj i ((j, e) # s) = (if j = i then e # proj i s else proj i s)"
  by (simp add: proj_def)

lemma bracketed_exclusive:
  "feasible h s \<Longrightarrow> (\<And>i. bracketed (h = Some i) (proj i s)) \<Longrightarrow> exclusive h s"
proof (induction s arbitrary: h)
  case Nil
  then show ?case by simp
next
  case (Cons p s)
  obtain i e where p: "p = (i, e)" by (cases p)
  have own: "bracketed (h = Some i) (e # proj i s)"
    using Cons.prems(2) [of i] by (simp add: p proj_Cons)
  have other: "bracketed (h = Some j) (proj j s)" if "j \<noteq> i" for j
    using Cons.prems(2) [of j] that by (simp add: p proj_Cons)
  show ?case
  proof (cases e)
    case Acquire
    with own have free: "h \<noteq> Some i" and mine: "bracketed True (proj i s)" by simp_all
    from Cons.prems(1) have none: "h = None" and f: "feasible (Some i) s"
      by (simp_all add: p Acquire)
    have "bracketed (Some i = Some j) (proj j s)" for j
    proof (cases "j = i")
      case True
      with mine show ?thesis by simp
    next
      case False
      with other [of j] none show ?thesis by simp
    qed
    with Cons.IH [OF f] show ?thesis by (simp add: p Acquire)
  next
    case Release
    with own have hold: "h = Some i" and mine: "bracketed False (proj i s)" by simp_all
    from Cons.prems(1) have f: "feasible None s" by (simp add: p Release)
    have "bracketed (None = Some j) (proj j s)" for j
    proof (cases "j = i")
      case True
      with mine show ?thesis by simp
    next
      case False
      with other [of j] hold show ?thesis by simp
    qed
    with Cons.IH [OF f] show ?thesis by (simp add: p Release)
  next
    case Decode
    with own have hold: "h = Some i" and mine: "bracketed (h = Some i) (proj i s)" by auto
    from Cons.prems(1) have f: "feasible h s" by (simp add: p Decode)
    have "bracketed (h = Some j) (proj j s)" for j
      using mine other [of j] by (cases "j = i") simp_all
    with Cons.IH [OF f] hold show ?thesis by (simp add: p Decode)
  next
    case (Apply a)
    with own have hold: "h = Some i" and mine: "bracketed (h = Some i) (proj i s)" by auto
    from Cons.prems(1) have f: "feasible h s" by (simp add: p Apply)
    have "bracketed (h = Some j) (proj j s)" for j
      using mine other [of j] by (cases "j = i") simp_all
    with Cons.IH [OF f] hold show ?thesis by (simp add: p Apply)
  next
    case (Query n a)
    with own have mine: "bracketed (h = Some i) (proj i s)" by simp
    from Cons.prems(1) have f: "feasible h s" by (simp add: p Query)
    have "bracketed (h = Some j) (proj j s)" for j
      using mine other [of j] by (cases "j = i") simp_all
    with Cons.IH [OF f] show ?thesis by (simp add: p Query)
  next
    case (LogMsg m)
    with own have mine: "bracketed (h = Some i) (proj i s)" by simp
    from Cons.prems(1) have f: "feasible h s" by (simp add: p LogMsg)
    have "bracketed (h = Some j) (proj j s)" for j
      using mine other [of j] by (cases "j = i") simp_all
    with Cons.IH [OF f] show ?thesis by (simp add: p LogMsg)
  qed
qed

text \<open>
  C4. The events of a call of \<open>ConfigureActuator\<close> or \<open>CommandActuators\<close>, whatever the
  controller returns or raises, acquire the lock once, before the request is decoded and
  applied, and release it once, after; the events of \<open>GetActuatorsState\<close> and
  \<open>ParameterDump\<close> hold no acquire and no release. So in every schedule of concurrent
  calls of the two changing operations in which no call acquires the lock while another
  holds it, each call decodes and applies only while it holds the lock itself: the
  effects of two calls do not interleave.
\<close>

theorem mutating_calls_hold_the_lock:
  "bracketed False (events_of k)
   \<and> count_list (events_of k) Acquire = 1 \<and> count_list (events_of k) Release = 1
   \<and> Acquire \<notin> set (snd (snd (GetActuatorsState c ids ctx)))
   \<and> Release \<notin> set (snd (snd (GetActuatorsState c ids ctx)))
   \<and> Acquire \<notin> set (snd (snd (ParameterDump c ids ctx)))
   \<and> Release \<notin> set (snd (snd (ParameterDump c ids ctx)))
   \<and> ((\<forall>i. proj i s = (case running_calls i of None \<Rightarrow> [] | Some k' \<Rightarrow> events_of k'))
        \<and> feasible None s \<longrightarrow> exclusive None s)"
proof -
  have "exclusive None s"
    if all: "\<forall>i. proj i s = (case running_calls i of None \<Rightarrow> [] | Some k' \<Rightarrow> events_of k')"
      and f: "feasible None s"
  proof (rule bracketed_exclusive [OF f])
    fix i
    from all have "proj i s = (case running_calls i of None \<Rightarrow> [] | Some k' \<Rightarrow> events_of k')"
      by blast
    then show "bracketed (None = Some i) (proj i s)"
      by (cases "running_calls i") (simp_all add: bracketed_events_of)
  qed
  then show ?thesis
    by (simp add: bracketed_events_of lock_once_events_of GetActuatorsState_no_lock
        ParameterDump_no_lock)
qed

text \<open>
  Two calls, 1 a configuration and 2 a position command. Call 2 asks for the lock while
  call 1 holds it and gets it after the release; each applies while it holds the lock.
\<close>

theorem mutating_calls_hold_the_lock_witness:
  "feasible None
     [(1, Acquire), (1, Decode), (1, Apply (Configure 1 [(''torque_enabled'', BoolVal True)])),
      (1, Release), (2, Acquire), (2, Decode), (2, Apply (SetPositions [(1, 0.5)])),
      (2, Release)]
   \<and> exclusive None
     [(1, Acquire), (1, Decode), (1, Apply (Configure 1 [(''torque_enabled'', BoolVal True)])),
      (1, Release), (2, Acquire), (2, Decode), (2, Apply (SetPositions [(1, 0.5)])),
      (2, Release)]
   \<and> events_of (Configure_call demo_controller (plain_request 1) ctx0) =
       [Acquire, Decode, Apply (Configure 1 [(''torque_enabled'', BoolVal True)]), Release]
   \<and> events_of (Command_call demo_controller
        [\<lparr>cmd_actuator_id = 1, cmd_position = 0.5\<rparr>] ctx0) =
       [Acquire, Decode, Apply (SetPositions [(1, 0.5)]), Release]"
proof -
  let ?k1 = "Configure_call demo_controller (plain_request 1) ctx0"
  let ?k2 = "Command_call demo_controller [\<lparr>cmd_actuator_id = 1, cmd_position = 0.5\<rparr>] ctx0"
  let ?s = "[(1::nat, Acquire), (1, Decode),
             (1, Apply (Configure 1 [(''torque_enabled'', BoolVal True)])),
             (1, Release), (2, Acquire), (2, Decode), (2, Apply (SetPositions [(1, 0.5)])),
             (2, Release)]"
  let ?calls = "\<lambda>i::nat. if i = 1 then Some ?k1 else if i = 2 then Some ?k2 else None"
  have e1: "events_of ?k1 =
      [Acquire, Decode, Apply (Configure 1 [(''torque_enabled'', BoolVal True)]), Release]"
    by (simp add: ConfigureActuator_def configure_body_def with_lock_def Let_def
        demo_controller_def plain_request_def build_config_def field_def)
  have e2: "events_of ?k2 = [Acquire, Decode, Apply (SetPositions [(1, 0.5)]), Release]"
    by (simp add: CommandActuators_def command_body_def with_lock_def Let_def
        demo_controller_def servo_commands_def)
  have p: "\<forall>i. proj i ?s = (case ?calls i of None \<Rightarrow> [] | Some k' \<Rightarrow> events_of k')"
    using e1 e2 by (simp add: proj_def)
  have f: "feasible None ?s" by simp
  from mutating_calls_hold_the_lock [of ?k1 demo_controller "[]" ctx0 ?s ?calls] p f
  have "exclusive None ?s" by blast
  with f e1 e2 show ?thesis by simp
qed

section \<open>A lower layer that is busy\<close>

lemma ConfigureActuator_busy:
  "configure_actuator c (req_actuator_id r) (build_config r) = Inl (RuntimeError m) \<Longrightarrow>
   fst (ConfigureActuator c r ctx) = ActionResponse False
   \<and> fst (snd (ConfigureActuator c r ctx)) =
       ctx\<lparr>code := RESOURCE_EXHAUSTED, details := ''another control operation is in progress''\<rparr>"
  by (simp add: ConfigureActuator_def configure_body_def with_lock_def Let_def)

lemma CommandActuators_busy:
  "set_positions c (servo_commands c cmds) = Inl (RuntimeError m) \<Longrightarrow>
   fst (CommandActuators c cmds ctx) = ActionResponse False
   \<and> fst (snd (CommandActuators c cmds ctx)) =
       ctx\<lparr>code := RESOURCE_EXHAUSTED, details := ''Another control operation is in progress.''\<rparr>"
  by (simp add: CommandActuators_def command_body_def with_lock_def Let_def)

text \<open>
  C5. When \<open>set_positions\<close> raises \<open>RuntimeError\<close>, \<open>CommandActuators\<close> sets the code
  \<open>RESOURCE_EXHAUSTED\<close> and returns \<open>ActionResponse(success=False)\<close>, the response
  message of \<open>ConfigureActuator\<close>; on its two other exits, the return of line 97 and the
  handler of line 104, it returns its own \<open>CommandActuatorsResponse\<close>.
\<close>

theorem CommandActuators_busy_returns_ActionResponse:
  "CommandActuators busy_controller [\<lparr>cmd_actuator_id = 1, cmd_position = 0.5\<rparr>] ctx0 =
     (ActionResponse False,
      \<lparr>code = RESOURCE_EXHAUSTED, details = ''Another control operation is in progress.''\<rparr>,
      [Acquire, Decode, Apply (SetPositions [(1, 0.5)]), Release])
   \<and> ActionResponse False \<noteq> CommandActuatorsResponse
   \<and> fst (CommandActuators demo_controller [\<lparr>cmd_actuator_id = 1, cmd_position = 0.5\<rparr>] ctx0)
       = CommandActuatorsResponse
   \<and> CommandActuators failing_controller [\<lparr>cmd_actuator_id = 1, cmd_position = 0.5\<rparr>] ctx0 =
     (CommandActuatorsResponse,
      \<lparr>code = INTERNAL, details = ''serial port closed''\<rparr>,
      [Acquire, Decode, Apply (SetPositions [(1, 0.5)]), Release])
   \<and> ConfigureActuator busy_controller (plain_request 1) ctx0 =
     (ActionResponse False,
      \<lparr>code = RESOURCE_EXHAUSTED, details = ''another control operation is in progress''\<rparr>,
      [Acquire, Decode, Apply (Configure 1 [(''torque_enabled'', BoolVal True)]), Release])"
  by (simp add: CommandActuators_def command_body_def ConfigureActuator_def configure_body_def
      with_lock_def Let_def servo_commands_def busy_controller_def failing_controller_def
      demo_controller_def ctx0_def plain_request_def build_config_def field_def)

section \<open>The state of a registered and of an unregistered actuator\<close>

lemma state_entries_1_99:
  assumes "set (actuator_ids c) = {1}"
    and "get_torque_enabled c 1 = Inr torque"
    and "get_state c 1 = Inr (Some d)"
    and "get_faults c 1 = Inr fi"
  shows "fst (state_entries c [1, 99]) =
     Inr [\<lparr>st_actuator_id = 1,
           position = (case map_of d ''position'' of None \<Rightarrow> 0 | Some p \<Rightarrow> p),
           velocity = (case map_of d ''velocity'' of None \<Rightarrow> 0 | Some v \<Rightarrow> v),
           online = torque,
           faults = (case fi of
                       None \<Rightarrow> []
                     | Some f \<Rightarrow> [last_fault_message f, str_int (total_faults f),
                                  str_int (py_int (last_fault_time f))])\<rparr>,
          \<lparr>st_actuator_id = 99, position = 0, velocity = 0, online = False,
           faults = [''servo not registered'']\<rparr>]"
  using assms
  by (simp add: registered_state_def unregistered_state_def dict_get_def fault_strings_def)

lemma str_int_3: "str_int 3 = ''3''"
  by (simp add: str_int_def digit_char_def)

lemma str_int_1712: "str_int 1712 = ''1712''"
  by (simp add: str_int_def digit_char_def)

lemma py_int_1712: "py_int 1712.9 = 1712"
  by (simp add: py_int_def)

text \<open>
  C6. For the IDs \<open>[1, 99]\<close> with only 1 registered, and the controller reporting for
  ID 1 a torque-enabled flag, a state and its faults, the response holds exactly two
  entries, in the order of the request. The one for 1 has the position and the velocity
  of the reported state (zero for one that the state lacks), the flag as \<open>online\<close>, and
  as faults the reported message, the text of the reported count and the text of the
  reported time cut to a whole number (no faults when none are reported). The one for 99
  has zero position and velocity, \<open>online\<close> false and the fault "servo not registered".
  The status code is left as it was.
\<close>

theorem GetActuatorsState_registered_and_unregistered:
  assumes "set (actuator_ids c) = {1}"
    and "get_torque_enabled c 1 = Inr torque"
    and "get_state c 1 = Inr (Some d)"
    and "get_faults c 1 = Inr fi"
  shows "fst (GetActuatorsState c [1, 99] ctx) =
     GetActuatorsStateResponse
       [\<lparr>st_actuator_id = 1,
         position = (case map_of d ''position'' of None \<Rightarrow> 0 | Some p \<Rightarrow> p),
         velocity = (case map_of d ''velocity'' of None \<Rightarrow> 0 | Some v \<Rightarrow> v),
         online = torque,
         faults = (case fi of
                     None \<Rightarrow> []
                   | Some f \<Rightarrow> [last_fault_message f, str_int (total_faults f),
                                str_int (py_int (last_fault_time f))])\<rparr>,
        \<lparr>st_actuator_id = 99, position = 0, velocity = 0, online = False,
         faults = [''servo not registered'']\<rparr>]
   \<and> fst (snd (GetActuatorsState c [1, 99] ctx)) = ctx"
proof -
  obtain evs where "state_entries c [1, 99] =
     (Inr [\<lparr>st_actuator_id = 1,
           position = (case map_of d ''position'' of None \<Rightarrow> 0 | Some p \<Rightarrow> p),
           velocity = (case map_of d ''velocity'' of None \<Rightarrow> 0 | Some v \<Rightarrow> v),
           online = torque,
           faults = (case fi of
                       None \<Rightarrow> []
                     | Some f \<Rightarrow> [last_fault_message f, str_int (total_faults f),
                                  str_int (py_int (last_fault_time f))])\<rparr>,
          \<lparr>st_actuator_id = 99, position = 0, velocity = 0, online = False,
           faults = [''servo not registered'']\<rparr>], evs)"
    using state_entries_1_99 [OF assms] by (cases "state_entries c [1, 99]") simp
  then show ?thesis
    by (simp add: GetActuatorsState_def requested_ids_def)
qed

text \<open>
  A controller that reports for actuator 1 the position 1.5, the velocity 0.25, torque
  enabled, and the fault "overload", counted 3 times, last at the time 1712.9; and the
  same controller with no fault on record.
\<close>

theorem GetActuatorsState_registered_and_unregistered_witness:
  "set (actuator_ids faulty_controller) = {1}
   \<and> get_torque_enabled faulty_controller 1 = Inr True
   \<and> get_state faulty_controller 1 = Inr (Some [(''position'', 1.5), (''velocity'', 0.25)])
   \<and> get_faults faulty_controller 1 =
       Inr (Some \<lparr>last_fault_message = ''overload'', total_faults = 3,
                   last_fault_time = 1712.9\<rparr>)
   \<and> fst (GetActuatorsState faulty_controller [1, 99] ctx0) =
       GetActuatorsStateResponse
         [\<lparr>st_actuator_id = 1, position = 1.5, velocity = 0.25, online = True,
           faults = [''overload'', ''3'', ''1712'']\<rparr>,
          \<lparr>st_actuator_id = 99, position = 0, velocity = 0, online = False,
           faults = [''servo not registered'']\<rparr>]
   \<and> fst (GetActuatorsState demo_controller [1, 99] ctx0) =
       GetActuatorsStateResponse
         [\<lparr>st_actuator_id = 1, position = 1.5, velocity = 0.25, online = True, faults = []\<rparr>,
          \<lparr>st_actuator_id = 99, position = 0, velocity = 0, online = False,
           faults = [''servo not registered'']\<rparr>]"
proof -
  have h: "set (actuator_ids faulty_controller) = {1}"
    "get_torque_enabled faulty_controller 1 = Inr True"
    "get_state faulty_controller 1 = Inr (Some [(''position'', 1.5), (''velocity'', 0.25)])"
    "get_faults faulty_controller 1 =
       Inr (Some \<lparr>last_fault_message = ''overload'', total_faults = 3,
                   last_fault_time = 1712.9\<rparr>)"
    by (simp_all add: faulty_controller_def demo_controller_def)
  have g: "set (actuator_ids demo_controller) = {1}"
    "get_torque_enabled demo_controller 1 = Inr True"
    "get_state demo_controller 1 = Inr (Some [(''position'', 1.5), (''velocity'', 0.25)])"
    "get_faults demo_controller 1 = Inr None"
    by (simp_all add: demo_controller_def)
  from GetActuatorsState_registered_and_unregistered [OF h, of ctx0]
    GetActuatorsState_registered_and_unregistered [OF g, of ctx0] h
  show ?thesis by (simp add: str_int_3 str_int_1712 py_int_1712)
qed

section \<open>Unknown actuator IDs\<close>

lemma str_int_1: "str_int 1 = ''1''"
  by (simp add: str_int_def digit_char_def)

lemma str_int_99: "str_int 99 = ''99''"
  by (simp add: str_int_def digit_char_def)

lemma fst_set_dict_set: "fst ` set (dict_set k v d) = insert k (fst ` set d)"
proof (induction d)
  case Nil
  show ?case by simp
next
  case (Cons p d)
  obtain k' v' where p: "p = (k', v')" by (cases p)
  show ?case
  proof (cases "k = k'")
    case True
    then show ?thesis by (simp add: p)
  next
    case False
    then show ?thesis by (simp add: p Cons.IH insert_commute)
  qed
qed

lemma fst_set_foldl_dict_set:
  "fst ` set (foldl (\<lambda>d cmd. dict_set (cmd_actuator_id cmd) (cmd_position cmd) d) d0 cmds)
     = fst ` set d0 \<union> cmd_actuator_id ` set cmds"
  by (induction cmds arbitrary: d0) (auto simp: fst_set_dict_set)

lemma servo_commands_keys:
  "fst ` set (servo_commands c cmds) = cmd_actuator_id ` set cmds \<inter> set (actuator_ids c)"
  by (auto simp: servo_commands_def fst_set_foldl_dict_set)

lemma CommandActuators_events:
  "snd (snd (CommandActuators c cmds ctx)) =
     [Acquire, Decode, Apply (SetPositions (servo_commands c cmds)), Release]"
  by (cases "set_positions c (servo_commands c cmds)")
     (simp_all add: CommandActuators_def command_body_def with_lock_def Let_def)

lemma dump_entries_ids:
  "map fst (fst (dump_entries c ids)) =
     filter (\<lambda>aid. aid \<in> set (actuator_ids c) \<and> isl (read_all_servo_params c aid) = False) ids"
  by (induction ids) (auto simp: Let_def split: sum.splits)

lemma dump_entries_logs_unknown:
  "aid \<in> set ids \<Longrightarrow> aid \<notin> set (actuator_ids c) \<Longrightarrow>
   LogMsg (''actuator '' @ str_int aid @ '' not registered'') \<in> set (snd (dump_entries c ids))"
  by (induction ids) (auto simp: Let_def split: sum.splits)

text \<open>
  C7 as stated fails for \<open>ParameterDump\<close>: for the IDs \<open>[1, 99]\<close> with only 1
  registered, the results hold the entry for 1 and nothing for 99, which appears in the
  log alone.
\<close>

theorem ParameterDump_skips_unregistered:
  "ParameterDump demo_controller [1, 99] ctx0 =
     (ParameterDumpResponse [(1, [(''id'', 1)])], ctx0,
      [LogMsg ''ParameterDump request: [1, 99]'',
       Query ''read_all_servo_params'' 1,
       LogMsg ''actuator 99 not registered''])"
  by (simp add: ParameterDump_def requested_ids_def demo_controller_def Let_def repr_ints_def
      str_int_1 str_int_99)

text \<open>
  C7, amended. An unknown actuator ID does not fail the call. \<open>CommandActuators\<close> hands
  to \<open>set_positions\<close> the commands for exactly the commanded IDs that the controller
  knows. \<open>ParameterDump\<close> returns entries for exactly the requested IDs that the
  controller knows and whose parameters could be read, in the order of the request; an
  unknown ID has no entry, a warning that it is not registered is logged, and the status
  code is left as it was.
\<close>

theorem unknown_ids_are_left_out:
  "snd (snd (CommandActuators c cmds ctx)) =
     [Acquire, Decode, Apply (SetPositions (servo_commands c cmds)), Release]
   \<and> fst ` set (servo_commands c cmds) = cmd_actuator_id ` set cmds \<inter> set (actuator_ids c)
   \<and> (\<exists>entries.
        fst (ParameterDump c ids ctx) = ParameterDumpResponse entries
        \<and> map fst entries =
            filter (\<lambda>aid. aid \<in> set (actuator_ids c) \<and> isl (read_all_servo_params c aid) = False)
              (requested_ids c ids))
   \<and> fst (snd (ParameterDump c ids ctx)) = ctx
   \<and> (aid \<in> set (requested_ids c ids) \<and> aid \<notin> set (actuator_ids c) \<longrightarrow>
        LogMsg (''actuator '' @ str_int aid @ '' not registered'')
          \<in> set (snd (snd (ParameterDump c ids ctx))))"
  using dump_entries_logs_unknown [of aid "requested_ids c ids" c]
  by (simp add: CommandActuators_events servo_commands_keys ParameterDump_def Let_def
      dump_entries_ids)

theorem unknown_ids_are_left_out_witness:
  "(99 \<in> set (requested_ids demo_controller [1, 99]) \<and> 99 \<notin> set (actuator_ids demo_controller))
   \<and> LogMsg ''actuator 99 not registered''
       \<in> set (snd (snd (ParameterDump demo_controller [1, 99] ctx0)))
   \<and> snd (snd (CommandActuators demo_controller
        [\<lparr>cmd_actuator_id = 99, cmd_position = 2\<rparr>, \<lparr>cmd_actuator_id = 1, cmd_position = 0.5\<rparr>]
        ctx0)) =
       [Acquire, Decode, Apply (SetPositions [(1, 0.5)]), Release]"
  using unknown_ids_are_left_out
    [of demo_controller
        "[\<lparr>cmd_actuator_id = 99, cmd_position = 2\<rparr>, \<lparr>cmd_actuator_id = 1, cmd_position = 0.5\<rparr>]"
        ctx0 "[1, 99]" 99]
  by (simp add: requested_ids_def demo_controller_def servo_commands_def str_int_99)

section \<open>The Euler-angle and extended-values queries\<close>

lemma imu_getattr_missing:
  "imu_getattr ''get_euler'' =
     Inl (AttributeError ([CHR 0x27] @ ''BNO055Manager' object has no attribute 'get_euler''
                          @ [CHR 0x27]))"
  "imu_getattr ''get_advanced_values'' =
     Inl (AttributeError
           ([CHR 0x27] @ ''BNO055Manager' object has no attribute 'get_advanced_values''
            @ [CHR 0x27]))"
  by (simp_all add: imu_getattr_def BNO055Manager_attributes_def instance_attributes_def
      class_attributes_def no_attribute_def quoted_def)

lemma imu_getattr_found:
  "imu_getattr ''get_values'' = Inr ()"
  "imu_getattr ''get_quaternion'' = Inr ()"
  "imu_getattr ''get_calibration_status'' = Inr ()"
  by (simp_all add: imu_getattr_def BNO055Manager_attributes_def instance_attributes_def
      class_attributes_def)

text \<open>
  Whatever class \<open>IMUNotAvailableError\<close> is, the two queries return the error response
  and never a payload of values.
\<close>

lemma GetEuler_never_succeeds:
  "\<exists>m. fst (GetEuler unavailable result ctx) = EulerAnglesResponse_error m
     \<and> details (snd (GetEuler unavailable result ctx)) = m
     \<and> code (snd (GetEuler unavailable result ctx)) \<in> {UNAVAILABLE, INTERNAL}"
  by (simp add: GetEuler_def imu_getattr_missing imu_except_def)

lemma GetAdvancedValues_never_succeeds:
  "\<exists>m. fst (GetAdvancedValues unavailable result ctx) = IMUAdvancedValuesResponse_error m
     \<and> details (snd (GetAdvancedValues unavailable result ctx)) = m
     \<and> code (snd (GetAdvancedValues unavailable result ctx)) \<in> {UNAVAILABLE, INTERNAL}"
  by (simp add: GetAdvancedValues_def imu_getattr_missing imu_except_def)

text \<open>
  C10. \<open>BNO055Manager\<close> has the methods that the other queries call, and no attribute
  \<open>get_euler\<close> and none \<open>get_advanced_values\<close>. So whatever a method of that name would
  return, and for every class \<open>IMUNotAvailableError\<close> that no \<open>AttributeError\<close> is an
  instance of, \<open>GetEuler\<close> and \<open>GetAdvancedValues\<close> return the error response with the
  code \<open>INTERNAL\<close> and the text of the \<open>AttributeError\<close>, never a payload of values.
\<close>

theorem GetEuler_and_GetAdvancedValues_always_fail:
  assumes "\<And>m. \<not> unavailable (AttributeError m)"
  shows "GetEuler unavailable result ctx =
     (EulerAnglesResponse_error
        ([CHR 0x27] @ ''BNO055Manager' object has no attribute 'get_euler'' @ [CHR 0x27]),
      ctx\<lparr>code := INTERNAL,
          details :=
            [CHR 0x27] @ ''BNO055Manager' object has no attribute 'get_euler'' @ [CHR 0x27]\<rparr>)
   \<and> GetAdvancedValues unavailable result' ctx =
     (IMUAdvancedValuesResponse_error
        ([CHR 0x27] @ ''BNO055Manager' object has no attribute 'get_advanced_values''
         @ [CHR 0x27]),
      ctx\<lparr>code := INTERNAL,
          details :=
            [CHR 0x27] @ ''BNO055Manager' object has no attribute 'get_advanced_values''
            @ [CHR 0x27]\<rparr>)
   \<and> imu_getattr ''get_values'' = Inr ()
   \<and> imu_getattr ''get_quaternion'' = Inr ()
   \<and> imu_getattr ''get_calibration_status'' = Inr ()"
  using assms
  by (simp add: GetEuler_def GetAdvancedValues_def imu_getattr_missing imu_getattr_found
      imu_except_def)

text \<open>
  With \<open>IMUNotAvailableError\<close> a class of its own, and methods that would return
  values were they there.
\<close>

theorem GetEuler_and_GetAdvancedValues_always_fail_witness:
  "fst (GetEuler own_class (Inr (0.1, 0.2, 0.3)) ctx0) =
     EulerAnglesResponse_error
       ([CHR 0x27] @ ''BNO055Manager' object has no attribute 'get_euler'' @ [CHR 0x27])
   \<and> code (snd (GetEuler own_class (Inr (0.1, 0.2, 0.3)) ctx0)) = INTERNAL
   \<and> code (snd (GetAdvancedValues own_class (Inr ((0, 0, 9.8), (0, 0, 9.8), 25)) ctx0)) =
       INTERNAL"
  using GetEuler_and_GetAdvancedValues_always_fail
    [of own_class "Inr (0.1, 0.2, 0.3)" ctx0 "Inr ((0, 0, 9.8), (0, 0, 9.8), 25)"]
  by simp

end
